(* ===== verification/JsPrelude.thy ===== *)
theory JsPrelude
  imports Main "HOL-Library.AList"
begin

text \<open>
  Shared vocabulary of the development: the names of the model's basic types, the
  collections of rewrite rules the component theories fill, and the generic facts on
  association lists and list updates that the heap proofs use. JavaScript objects keep
  their own properties in insertion order, so property tables are association lists
  updated with \<open>AList.update\<close> (in place when the key exists, appended otherwise).
\<close>

type_synonym addr = nat
type_synonym key = string

named_theorems heap_simps "evaluation rules of the heap operations"
named_theorems wf_intros "facts that an operation keeps the heap well formed"

subsection \<open>Association lists\<close>

lemma alist_update_values_all:
  "P v \<Longrightarrow> \<forall>p \<in> set al. P (snd p) \<Longrightarrow> \<forall>p \<in> set (AList.update k v al). P (snd p)"
  by (induction al) auto

lemma map_of_alist_update [simp]:
  "map_of (AList.update k v al) = (map_of al)(k \<mapsto> v)"
  by (rule update_conv')

lemma alist_update_keys [simp]:
  "map fst (AList.update k v al) =
     (if k \<in> set (map fst al) then map fst al else map fst al @ [k])"
  by (induction al) auto

lemma alist_update_existing_length:
  "k \<in> fst ` set al \<Longrightarrow> length (AList.update k v al) = length al"
  by (induction al) auto

lemma map_of_map_snd:
  "map_of (map (\<lambda>(k, x). (k, f x)) al) k = map_option f (map_of al k)"
  by (induction al) auto

lemma list_all2_alist_update:
  "Q (k, x) (k, y) \<Longrightarrow> (\<forall>p \<in> set ps. Q p p) \<Longrightarrow>
     list_all2 Q (AList.update k x ps) (AList.update k y ps)"
  by (induction ps) (auto simp: list_all2_same)

text \<open>Updating the one entry that holds \<open>x\<close>: every other entry is related to itself.\<close>

lemma list_all2_update_unique:
  "map_of ps k = Some x \<Longrightarrow> length (filter (\<lambda>p. snd p = x) ps) = 1 \<Longrightarrow>
     (\<forall>p \<in> set ps. snd p \<noteq> x \<longrightarrow> Q p p) \<Longrightarrow> Q (k, x) (k, y) \<Longrightarrow>
     list_all2 Q ps (AList.update k y ps)"
proof (induction ps)
  case (Cons p ps)
  show ?case
  proof (cases "fst p = k")
    case True
    with Cons.prems(1) have p: "p = (k, x)" by (cases p) auto
    with Cons.prems(2) have "\<forall>q \<in> set ps. snd q \<noteq> x" by (auto simp: filter_empty_conv)
    with Cons.prems(3) have "list_all2 Q ps ps" by (auto simp: list_all2_same)
    with p Cons.prems(4) show ?thesis by simp
  next
    case False
    with Cons.prems(1) have m: "map_of ps k = Some x" by (cases p) auto
    then have "(k, x) \<in> set ps" by (rule map_of_SomeD)
    then have "filter (\<lambda>p. snd p = x) ps \<noteq> []" by (force simp: filter_empty_conv)
    with Cons.prems(2) have px: "snd p \<noteq> x" and c: "length (filter (\<lambda>p. snd p = x) ps) = 1"
      by (auto split: if_splits)
    from Cons.IH [OF m c] Cons.prems(3,4) px False show ?thesis by (cases p) auto
  qed
qed simp

subsection \<open>Lists used as append-only stores\<close>

lemma nth_append_prefix [simp]:
  "a < length h \<Longrightarrow> (h @ xs) ! a = h ! a"
  by (simp add: nth_append)

lemma list_update_all:
  "\<forall>x \<in> set xs. P x \<Longrightarrow> P y \<Longrightarrow> \<forall>x \<in> set (xs[i := y]). P x"
  by (induction xs arbitrary: i) (auto split: nat.splits)

lemma list_all_mono_pred:
  "list_all P xs \<Longrightarrow> (\<And>x. x \<in> set xs \<Longrightarrow> P x \<Longrightarrow> Q x) \<Longrightarrow> list_all Q xs"
  by (induction xs) auto

end
