(* ===== verification/JsHeap.thy ===== *)
theory JsHeap
  imports JsPrelude
begin

text \<open>
  The part of the JavaScript object model that \<open>src/next.config.js\<close> exercises: values,
  heap objects with ordered own properties, allocation, the property read \<open>o.k\<close>, the
  property write \<open>o.k = v\<close> (sloppy mode, as a CommonJS module without \<open>"use strict"\<close>
  runs), object destructuring of a parameter, and \<open>ToBoolean\<close> for \<open>!x\<close>. The heap is
  an append-only list of objects: an address is a position, allocation appends, and no
  object is ever removed (garbage collection is not observable by the program). Every
  \<open>TypeError\<close> that these operations raise is a value of \<open>js_error\<close>.
\<close>

section \<open>Values, objects and the heap\<close>

datatype js_val =
    JUndef
  | JNull
  | JBool bool
  | JNum int
  | JStr string
  | JRef addr

text \<open>
  Array and function objects are ordinary property tables with a tag: an array keeps its
  elements under the keys \<open>''0''\<close>, \<open>''1''\<close>, \<dots> and its \<open>''length''\<close>; a closure is
  named by the function it was created from.
\<close>

datatype obj_kind = Ordinary | ArrayObj | Closure string

record js_obj =
  kind :: obj_kind
  props :: "(key \<times> js_val) list"

type_synonym heap = "js_obj list"

text \<open>
  The runtime errors, each a \<open>TypeError\<close> of the engine:
  \<^item> \<open>ReadOfNullish k\<close>: \<open>Cannot read properties of undefined (reading 'k')\<close>;
  \<^item> \<open>WriteOfNullish k\<close>: \<open>Cannot set properties of undefined (setting 'k')\<close>;
  \<^item> \<open>DestructureNullish k\<close>: \<open>Cannot destructure property 'k' of 'undefined'\<close>;
  \<^item> \<open>NotCallable\<close>: \<open>x is not a function\<close>.
  \<open>Dangling a\<close> is an address past the heap; no well-formed heap produces one.
\<close>

datatype js_error =
    ReadOfNullish key
  | WriteOfNullish key
  | DestructureNullish key
  | NotCallable
  | Dangling addr

definition alloc :: "js_obj \<Rightarrow> heap \<Rightarrow> addr \<times> heap" where
  "alloc ob h = (length h, h @ [ob])"

fun nat_str :: "nat \<Rightarrow> string" where
  "nat_str n =
     (if n < 10 then [char_of (48 + n)]
      else nat_str (n div 10) @ [char_of (48 + n mod 10)])"

declare nat_str.simps [simp del]

section \<open>Property access\<close>

text \<open>
  \<open>[[Get]]\<close> on a value. Objects answer from their own properties; a missing key reads as
  \<open>undefined\<close> (none of the keys the program reads is a property of
  \<open>Object.prototype\<close>). A string has its \<open>length\<close> and one-character strings at its
  indices; booleans and numbers have none of the program's keys.
\<close>

fun get_prop :: "heap \<Rightarrow> js_val \<Rightarrow> key \<Rightarrow> js_error + js_val" where
  "get_prop h JUndef k = Inl (ReadOfNullish k)"
| "get_prop h JNull k = Inl (ReadOfNullish k)"
| "get_prop h (JRef a) k =
     (if a < length h
      then Inr (case map_of (props (h ! a)) k of Some x \<Rightarrow> x | None \<Rightarrow> JUndef)
      else Inl (Dangling a))"
| "get_prop h (JStr s) k =
     Inr (if k = ''length'' then JNum (int (length s))
          else (case find (\<lambda>i. nat_str i = k) [0..<length s] of
                  Some i \<Rightarrow> JStr [s ! i]
                | None \<Rightarrow> JUndef))"
| "get_prop h (JBool b) k = Inr JUndef"
| "get_prop h (JNum n) k = Inr JUndef"

text \<open>
  \<open>[[Set]]\<close> by assignment \<open>base.k = x\<close>. On an object the own property is replaced in
  place or appended. On \<open>undefined\<close> or \<open>null\<close> the assignment throws. On another
  primitive the value is written to a temporary wrapper object, which in sloppy mode
  leaves the heap as it was.
\<close>

fun set_prop :: "heap \<Rightarrow> js_val \<Rightarrow> key \<Rightarrow> js_val \<Rightarrow> js_error + heap" where
  "set_prop h JUndef k x = Inl (WriteOfNullish k)"
| "set_prop h JNull k x = Inl (WriteOfNullish k)"
| "set_prop h (JRef a) k x =
     (if a < length h
      then Inr (h[a := (h ! a)\<lparr>props := AList.update k x (props (h ! a))\<rparr>])
      else Inl (Dangling a))"
| "set_prop h (JBool b) k x = Inr h"
| "set_prop h (JNum n) k x = Inr h"
| "set_prop h (JStr s) k x = Inr h"

text \<open>
  A destructuring parameter \<open>{ k }\<close> first requires the argument to be coercible to an
  object, then reads \<open>k\<close> from it.
\<close>

definition destructure_prop :: "heap \<Rightarrow> js_val \<Rightarrow> key \<Rightarrow> js_error + js_val" where
  "destructure_prop h v k =
     (case v of
        JUndef \<Rightarrow> Inl (DestructureNullish k)
      | JNull \<Rightarrow> Inl (DestructureNullish k)
      | _ \<Rightarrow> get_prop h v k)"

text \<open>\<open>ToBoolean\<close>, the test of \<open>if\<close> and \<open>!\<close>. Numbers are integers in this model.\<close>

fun truthy :: "js_val \<Rightarrow> bool" where
  "truthy JUndef = False"
| "truthy JNull = False"
| "truthy (JBool b) = b"
| "truthy (JNum n) = (n \<noteq> 0)"
| "truthy (JStr s) = (s \<noteq> [])"
| "truthy (JRef a) = True"

section \<open>Well-formed heaps\<close>

text \<open>
  A heap is well formed when every address stored in a property points into the heap:
  the invariant a JavaScript engine keeps, and the one under which no operation meets a
  \<open>Dangling\<close> address.
\<close>

fun val_ok :: "heap \<Rightarrow> js_val \<Rightarrow> bool" where
  "val_ok h (JRef a) = (a < length h)"
| "val_ok h v = True"

definition obj_ok :: "heap \<Rightarrow> js_obj \<Rightarrow> bool" where
  "obj_ok h ob = (\<forall>p \<in> set (props ob). val_ok h (snd p))"

definition wf_heap :: "heap \<Rightarrow> bool" where
  "wf_heap h = (\<forall>ob \<in> set h. obj_ok h ob)"

section \<open>Deep reading\<close>

text \<open>
  What a program can observe of a value: its primitive, or for a reference the tag and
  own properties of the object, read recursively. Heaps may be cyclic, so the read takes
  fuel: at fuel \<open>0\<close> a reference reads as \<open>TCut\<close>. Addresses themselves are not
  observable in JavaScript and do not occur in the result.
\<close>

datatype jtree =
    TVal js_val
  | TObj obj_kind "(key \<times> jtree) list"
  | TCut
  | TDangling

fun deep_read :: "nat \<Rightarrow> heap \<Rightarrow> js_val \<Rightarrow> jtree" where
  "deep_read 0 h (JRef a) = TCut"
| "deep_read (Suc n) h (JRef a) =
     (if a < length h
      then TObj (kind (h ! a)) (map (\<lambda>(k, x). (k, deep_read n h x)) (props (h ! a)))
      else TDangling)"
| "deep_read n h JUndef = TVal JUndef"
| "deep_read n h JNull = TVal JNull"
| "deep_read n h (JBool b) = TVal (JBool b)"
| "deep_read n h (JNum i) = TVal (JNum i)"
| "deep_read n h (JStr s) = TVal (JStr s)"

section \<open>Observational equivalence of heaps\<close>

text \<open>
  Two heaps look the same to the program when a relation between their addresses is a
  simulation: related objects have the same tag, the same keys in the same order, and
  related values. Deep reads from related values agree (\<open>deep_read_sim\<close>). The
  special case used most is a region \<open>[lo, length h)\<close> of the heap that refers only to
  itself: its contents are all that a deep read of a value in it can see
  (\<open>deep_read_region\<close>).
\<close>

definition val_rel :: "(addr \<times> addr) set \<Rightarrow> js_val \<Rightarrow> js_val \<Rightarrow> bool" where
  "val_rel R x y =
     (case x of
        JRef a \<Rightarrow> (case y of JRef b \<Rightarrow> (a, b) \<in> R | _ \<Rightarrow> False)
      | _ \<Rightarrow> y = x)"

definition heap_sim :: "(addr \<times> addr) set \<Rightarrow> heap \<Rightarrow> heap \<Rightarrow> bool" where
  "heap_sim R h g =
     (\<forall>(a, b) \<in> R. a < length h \<and> b < length g \<and> kind (h ! a) = kind (g ! b) \<and>
        list_all2 (\<lambda>p q. fst p = fst q \<and> val_rel R (snd p) (snd q)) (props (h ! a)) (props (g ! b)))"

definition val_in :: "addr \<Rightarrow> addr \<Rightarrow> js_val \<Rightarrow> bool" where
  "val_in lo hi v = (case v of JRef a \<Rightarrow> lo \<le> a \<and> a < hi | _ \<Rightarrow> True)"

definition region_closed :: "addr \<Rightarrow> heap \<Rightarrow> bool" where
  "region_closed lo h =
     (\<forall>a. lo \<le> a \<and> a < length h \<longrightarrow> (\<forall>p \<in> set (props (h ! a)). val_in lo (length h) (snd p)))"

section \<open>Facts about the heap operations\<close>

lemma wf_heap_region: "wf_heap h = region_closed 0 h"
proof -
  have "\<And>v. val_ok h v = val_in 0 (length h) v"
    by (case_tac v) (auto simp: val_in_def)
  then show ?thesis
    unfolding wf_heap_def obj_ok_def region_closed_def all_set_conv_all_nth by simp
qed

lemma val_in_mono: "val_in lo hi v \<Longrightarrow> hi \<le> hi' \<Longrightarrow> val_in lo hi' v"
  by (auto simp: val_in_def split: js_val.splits)

lemma alloc_eq [heap_simps, simp]: "alloc ob h = (length h, h @ [ob])"
  by (simp add: alloc_def)

lemma val_ok_length_eq:
  "length h' = length h \<Longrightarrow> val_ok h' v = val_ok h v"
  by (cases v) auto

lemma val_ok_mono: "val_ok h v \<Longrightarrow> length h \<le> length h' \<Longrightarrow> val_ok h' v"
  by (cases v) auto

lemma val_ok_append [simp]: "val_ok h v \<Longrightarrow> val_ok (h @ xs) v"
  by (cases v) auto

lemma obj_ok_append [simp]: "obj_ok h ob \<Longrightarrow> obj_ok (h @ xs) ob"
  by (auto simp: obj_ok_def)

lemma wf_heapD: "wf_heap h \<Longrightarrow> a < length h \<Longrightarrow> p \<in> set (props (h ! a)) \<Longrightarrow> val_ok h (snd p)"
  by (auto simp: wf_heap_def obj_ok_def)

lemma wf_heap_alloc [wf_intros]:
  "wf_heap h \<Longrightarrow> obj_ok (h @ [ob]) ob \<Longrightarrow> wf_heap (h @ [ob])"
  by (auto simp: wf_heap_def)

lemma set_prop_length:
  "set_prop h t k x = Inr h' \<Longrightarrow> length h' = length h"
  by (cases t) (auto split: if_splits)

lemma set_prop_wf [wf_intros]:
  assumes wf: "wf_heap h" and x: "val_ok h x" and set: "set_prop h t k x = Inr h'"
  shows "wf_heap h'"
proof (cases t)
  case (JRef a)
  with set have a: "a < length h"
    and h': "h' = h[a := (h ! a)\<lparr>props := AList.update k x (props (h ! a))\<rparr>]"
    by (auto split: if_splits)
  have old: "\<forall>p \<in> set (props (h ! a)). val_ok h (snd p)"
    using wf_heapD [OF wf a] by blast
  have "\<forall>p \<in> set (AList.update k x (props (h ! a))). val_ok h (snd p)"
    using x old by (rule alist_update_values_all)
  then have new: "obj_ok h ((h ! a)\<lparr>props := AList.update k x (props (h ! a))\<rparr>)"
    by (simp add: obj_ok_def)
  have "\<forall>ob \<in> set h. obj_ok h ob"
    using wf by (simp add: wf_heap_def)
  then have all: "\<forall>ob \<in> set h'. obj_ok h ob"
    unfolding h' using new by (rule list_update_all)
  have len: "length h' = length h" using h' by simp
  show ?thesis
    unfolding wf_heap_def obj_ok_def
  proof (intro ballI)
    fix ob p assume "ob \<in> set h'" "p \<in> set (props ob)"
    with all have "val_ok h (snd p)" by (simp add: obj_ok_def)
    then show "val_ok h' (snd p)" by (simp add: val_ok_length_eq [OF len])
  qed
qed (use set wf in auto)

text \<open>A property written is the property read back (cf. \<open>get_set_eq\<close> of references).\<close>

lemma get_set_prop_same:
  "set_prop h (JRef a) k x = Inr h' \<Longrightarrow> get_prop h' (JRef a) k = Inr x"
  by (auto split: if_splits)

text \<open>Every other property of every object reads as before.\<close>

lemma get_set_prop_other:
  assumes set: "set_prop h t k x = Inr h'" and other: "(v, k') \<noteq> (t, k)"
  shows "get_prop h' v k' = get_prop h v k'"
proof (cases t)
  case (JRef a)
  note t = this
  with set have a: "a < length h"
    and h': "h' = h[a := (h ! a)\<lparr>props := AList.update k x (props (h ! a))\<rparr>]"
    by (auto split: if_splits)
  show ?thesis
  proof (cases v)
    case (JRef b)
    with t other a h' show ?thesis
      by (cases "b = a") (auto simp: nth_list_update)
  qed (use h' in simp_all)
qed (use set in auto)

lemma get_prop_append:
  "val_ok h v \<Longrightarrow> get_prop (h @ xs) v k = get_prop h v k"
  by (cases v) auto

lemma nat_str_digit [simp]: "n < 10 \<Longrightarrow> nat_str n = [char_of (48 + n)]"
  by (simp add: nat_str.simps)

lemma get_prop_val_ok:
  "wf_heap h \<Longrightarrow> val_ok h v \<Longrightarrow> get_prop h v k = Inr x \<Longrightarrow> val_ok h x"
proof (cases v)
  case (JRef a)
  assume wf: "wf_heap h" and v: "val_ok h v" and get: "get_prop h v k = Inr x"
  with JRef have a: "a < length h" by simp
  show ?thesis
  proof (cases "map_of (props (h ! a)) k")
    case (Some y)
    with get JRef a have "(k, x) \<in> set (props (h ! a))" by (auto dest: map_of_SomeD)
    from wf_heapD [OF wf a this] show ?thesis by simp
  qed (use get JRef a in simp)
qed (auto split: if_splits option.splits)

text \<open>What a deep read shows of an object is what property reads return.\<close>

lemma deep_read_Suc_obj:
  "deep_read (Suc n) h v = TObj k ps \<Longrightarrow>
     \<exists>a. v = JRef a \<and> a < length h \<and> kind (h ! a) = k \<and>
         ps = map (\<lambda>(key, x). (key, deep_read n h x)) (props (h ! a))"
  by (cases v) (auto split: if_splits)

lemma deep_read_get_prop:
  assumes rd: "deep_read (Suc n) h v = TObj k ps" and key: "map_of ps key = Some t"
  shows "\<exists>x. get_prop h v key = Inr x \<and> deep_read n h x = t"
proof -
  from deep_read_Suc_obj [OF rd] obtain a where v: "v = JRef a" and a: "a < length h"
    and ps: "ps = map (\<lambda>(key, x). (key, deep_read n h x)) (props (h ! a))" by blast
  from key ps have "map_option (deep_read n h) (map_of (props (h ! a)) key) = Some t"
    by (simp add: map_of_map_snd)
  then obtain x where "map_of (props (h ! a)) key = Some x" and "deep_read n h x = t" by blast
  with v a show ?thesis by simp
qed

lemma get_prop_ref_base:
  "get_prop h v k = Inr (JRef r) \<Longrightarrow> \<exists>a. v = JRef a"
  by (cases v) (auto split: if_splits option.splits)

text \<open>On allocated values the only failures are the \<open>TypeError\<close>s on \<open>undefined\<close> and \<open>null\<close>.\<close>

lemma get_prop_Inl:
  "val_ok h v \<Longrightarrow> get_prop h v k = Inl e \<Longrightarrow> e = ReadOfNullish k \<and> (v = JUndef \<or> v = JNull)"
  by (cases v) (auto split: if_splits)

lemma set_prop_Inl:
  "val_ok h v \<Longrightarrow> set_prop h v k x = Inl e \<Longrightarrow> e = WriteOfNullish k \<and> (v = JUndef \<or> v = JNull)"
  by (cases v) (auto split: if_splits)

lemma destructure_prop_Inl:
  "val_ok h v \<Longrightarrow> destructure_prop h v k = Inl e \<Longrightarrow> e = DestructureNullish k \<and> (v = JUndef \<or> v = JNull)"
  by (cases v) (auto simp: destructure_prop_def split: if_splits)

lemma val_ok_grown: "val_ok h v \<Longrightarrow> \<exists>xs. h' = h @ xs \<Longrightarrow> val_ok h' v"
  by auto

text \<open>A write changes one object at most: every other object stays as it was.\<close>

lemma set_prop_other_obj:
  "set_prop h t k x = Inr h' \<Longrightarrow> t \<noteq> JRef a \<Longrightarrow> h' ! a = h ! a"
  by (cases t) (auto split: if_splits)

lemma set_prop_nullish [heap_simps]:
  "set_prop h JUndef k x = Inl (WriteOfNullish k)" "set_prop h JNull k x = Inl (WriteOfNullish k)"
  by simp_all

text \<open>Objects allocated later are invisible to a deep read of an older, well-formed part.\<close>

lemma deep_read_append:
  "wf_heap h \<Longrightarrow> val_ok h v \<Longrightarrow> deep_read n (h @ xs) v = deep_read n h v"
proof (induction n arbitrary: v)
  case 0
  then show ?case by (cases v) auto
next
  case (Suc n)
  show ?case
  proof (cases v)
    case (JRef a)
    with Suc.prems have a: "a < length h" by simp
    have "\<And>p. p \<in> set (props (h ! a)) \<Longrightarrow> deep_read n (h @ xs) (snd p) = deep_read n h (snd p)"
      using Suc.IH Suc.prems(1) a wf_heapD by blast
    with a JRef show ?thesis
      by (auto intro!: map_cong)
  qed simp_all
qed

lemma heap_simI:
  "(\<And>a b. (a, b) \<in> R \<Longrightarrow> a < length h \<and> b < length g \<and> kind (h ! a) = kind (g ! b) \<and>
      list_all2 (\<lambda>p q. fst p = fst q \<and> val_rel R (snd p) (snd q)) (props (h ! a)) (props (g ! b)))
   \<Longrightarrow> heap_sim R h g"
  by (auto simp: heap_sim_def)

lemma list_all2_map_eq:
  "list_all2 P xs ys \<Longrightarrow> (\<And>p q. p \<in> set xs \<Longrightarrow> q \<in> set ys \<Longrightarrow> P p q \<Longrightarrow> f p = g q) \<Longrightarrow>
     map f xs = map g ys"
  by (induction xs ys rule: list_all2_induct) auto

lemma deep_read_sim:
  "heap_sim R h g \<Longrightarrow> val_rel R x y \<Longrightarrow> deep_read n h x = deep_read n g y"
proof (induction n arbitrary: x y)
  case 0
  then show ?case by (cases x; cases y) (auto simp: val_rel_def)
next
  case (Suc n)
  show ?case
  proof (cases x)
    case (JRef a)
    with Suc.prems(2) obtain b where y: "y = JRef b" and ab: "(a, b) \<in> R"
      by (cases y) (auto simp: val_rel_def)
    from Suc.prems(1) ab have a: "a < length h" and b: "b < length g"
      and k: "kind (h ! a) = kind (g ! b)"
      and ps: "list_all2 (\<lambda>p q. fst p = fst q \<and> val_rel R (snd p) (snd q)) (props (h ! a)) (props (g ! b))"
      by (auto simp: heap_sim_def)
    have "map (\<lambda>(k, x). (k, deep_read n h x)) (props (h ! a)) =
        map (\<lambda>(k, x). (k, deep_read n g x)) (props (g ! b))"
      using ps by (rule list_all2_map_eq) (auto simp: Suc.IH [OF Suc.prems(1)])
    with JRef y a b k show ?thesis by simp
  next
  qed (use Suc.prems(2) in \<open>auto simp: val_rel_def split: js_val.splits\<close>)
qed

text \<open>A region stays closed when its objects are kept and every new object refers into it
  or to nothing.\<close>

lemma region_closed_frame:
  assumes closed: "region_closed lo h" and len: "length h \<le> length g"
    and same: "\<forall>a. lo \<le> a \<and> a < length h \<longrightarrow> g ! a = h ! a"
    and new: "\<forall>a. length h \<le> a \<and> a < length g \<longrightarrow> (\<forall>p \<in> set (props (g ! a)). val_in lo (length g) (snd p))"
  shows "region_closed lo g"
  unfolding region_closed_def
proof (intro allI impI ballI)
  fix a p assume a: "lo \<le> a \<and> a < length g" and p: "p \<in> set (props (g ! a))"
  show "val_in lo (length g) (snd p)"
  proof (cases "a < length h")
    case True
    with a same p have "p \<in> set (props (h ! a))" by simp
    with closed a True have "val_in lo (length h) (snd p)" by (auto simp: region_closed_def)
    then show ?thesis using len by (rule val_in_mono)
  next
    case False
    then have "length h \<le> a" by simp
    with a new p show ?thesis by blast
  qed
qed

lemma deep_read_region:
  assumes closed: "region_closed lo h" and v: "val_in lo (length h) v"
    and same: "\<forall>a. lo \<le> a \<and> a < length h \<longrightarrow> a < length g \<and> g ! a = h ! a"
  shows "deep_read n g v = deep_read n h v"
proof -
  let ?R = "{(a, a) | a. lo \<le> a \<and> a < length h}"
  have vr: "\<And>x. val_in lo (length h) x \<Longrightarrow> val_rel ?R x x"
    by (auto simp: val_rel_def val_in_def split: js_val.splits)
  have "heap_sim ?R h g"
  proof (rule heap_simI)
    fix a b assume "(a, b) \<in> ?R"
    then have b: "b = a" and a: "lo \<le> a" "a < length h" by auto
    with same have g: "a < length g" "g ! a = h ! a" by auto
    from closed a have "\<forall>p \<in> set (props (h ! a)). val_in lo (length h) (snd p)"
      by (auto simp: region_closed_def)
    then have "\<forall>p \<in> set (props (h ! a)). fst p = fst p \<and> val_rel ?R (snd p) (snd p)"
      using vr by blast
    then have "list_all2 (\<lambda>p q. fst p = fst q \<and> val_rel ?R (snd p) (snd q)) (props (h ! a)) (props (h ! a))"
      by (simp only: list_all2_same)
    with a g b show "a < length h \<and> b < length g \<and> kind (h ! a) = kind (g ! b) \<and>
        list_all2 (\<lambda>p q. fst p = fst q \<and> val_rel ?R (snd p) (snd q)) (props (h ! a)) (props (g ! b))"
      by simp
  qed
  from deep_read_sim [OF this vr [OF v]] show ?thesis by (rule sym)
qed
end
