(* ===== verification/JsLiteral.thy ===== *)
theory JsLiteral
  imports JsHeap
begin

text \<open>
  JavaScript literals as the program writes them: object literals \<open>{k: e, ...}\<close>, array
  literals \<open>[e, ...]\<close>, arrow functions, and primitive constants. \<open>eval_lit\<close>
  evaluates a literal into the heap, allocating one fresh object per object, array and
  function literal; \<open>lit_tree\<close> is what a deep read of the result shows. The main fact
  of this theory is that evaluation is read back exactly (\<open>eval_read\<close>), from any
  well-formed heap and with any fuel at least the literal's depth.

  The components of a literal are evaluated left to right before the object that holds
  them is allocated; ECMAScript allocates the holder first. Addresses are not observable,
  so the order changes nothing the program can see: both orders give heaps that read the
  same.
\<close>

datatype lit =
    LBool bool
  | LNum int
  | LStr string
  | LObj "(key \<times> lit) list"
  | LArr "lit list"
  | LFun string

text \<open>
  The own properties of an object literal: each \<open>k: v\<close> is \<open>CreateDataProperty\<close>, so
  a repeated key keeps its first position and takes its last value. An array's elements
  sit under their decimal indices, followed by its \<open>length\<close>.
\<close>

definition obj_of_fields :: "(key \<times> 'v) list \<Rightarrow> (key \<times> 'v) list" where
  "obj_of_fields kvs = fold (\<lambda>(k, v). AList.update k v) kvs []"

definition index_keys :: "nat \<Rightarrow> key list" where
  "index_keys n = map nat_str [0..<n]"

definition array_props :: "js_val list \<Rightarrow> (key \<times> js_val) list" where
  "array_props vs = zip (index_keys (length vs)) vs @ [(''length'', JNum (int (length vs)))]"

fun eval_lit :: "lit \<Rightarrow> heap \<Rightarrow> js_val \<times> heap"
  and eval_fields :: "(key \<times> lit) list \<Rightarrow> heap \<Rightarrow> (key \<times> js_val) list \<times> heap"
  and eval_elems :: "lit list \<Rightarrow> heap \<Rightarrow> js_val list \<times> heap" where
  "eval_lit (LBool b) h = (JBool b, h)"
| "eval_lit (LNum n) h = (JNum n, h)"
| "eval_lit (LStr s) h = (JStr s, h)"
| "eval_lit (LObj ps) h =
     (let (kvs, h1) = eval_fields ps h;
          (a, h2) = alloc \<lparr>kind = Ordinary, props = obj_of_fields kvs\<rparr> h1
      in (JRef a, h2))"
| "eval_lit (LArr es) h =
     (let (vs, h1) = eval_elems es h;
          (a, h2) = alloc \<lparr>kind = ArrayObj, props = array_props vs\<rparr> h1
      in (JRef a, h2))"
| "eval_lit (LFun f) h =
     (let (a, h1) = alloc \<lparr>kind = Closure f, props = []\<rparr> h in (JRef a, h1))"
| "eval_fields [] h = ([], h)"
| "eval_fields ((k, l) # ps) h =
     (let (v, h1) = eval_lit l h; (kvs, h2) = eval_fields ps h1 in ((k, v) # kvs, h2))"
| "eval_elems [] h = ([], h)"
| "eval_elems (l # ls) h =
     (let (v, h1) = eval_lit l h; (vs, h2) = eval_elems ls h1 in (v # vs, h2))"

text \<open>The observation of a literal, and the fuel a deep read needs to see all of it.\<close>

fun lit_tree :: "lit \<Rightarrow> jtree"
  and fields_tree :: "(key \<times> lit) list \<Rightarrow> (key \<times> jtree) list"
  and elems_tree :: "lit list \<Rightarrow> jtree list" where
  "lit_tree (LBool b) = TVal (JBool b)"
| "lit_tree (LNum n) = TVal (JNum n)"
| "lit_tree (LStr s) = TVal (JStr s)"
| "lit_tree (LObj ps) = TObj Ordinary (obj_of_fields (fields_tree ps))"
| "lit_tree (LArr es) =
     TObj ArrayObj (zip (index_keys (length es)) (elems_tree es)
                    @ [(''length'', TVal (JNum (int (length es))))])"
| "lit_tree (LFun f) = TObj (Closure f) []"
| "fields_tree [] = []"
| "fields_tree ((k, l) # ps) = (k, lit_tree l) # fields_tree ps"
| "elems_tree [] = []"
| "elems_tree (l # ls) = lit_tree l # elems_tree ls"

fun lit_depth :: "lit \<Rightarrow> nat"
  and fields_depth :: "(key \<times> lit) list \<Rightarrow> nat"
  and elems_depth :: "lit list \<Rightarrow> nat" where
  "lit_depth (LObj ps) = Suc (fields_depth ps)"
| "lit_depth (LArr es) = Suc (elems_depth es)"
| "lit_depth (LFun f) = 1"
| "lit_depth _ = 0"
| "fields_depth [] = 0"
| "fields_depth ((k, l) # ps) = max (lit_depth l) (fields_depth ps)"
| "elems_depth [] = 0"
| "elems_depth (l # ls) = max (lit_depth l) (elems_depth ls)"

text \<open>A tree as a read with fuel \<open>n\<close> sees it: objects below depth \<open>n\<close> are cut.\<close>

fun cut_tree :: "nat \<Rightarrow> jtree \<Rightarrow> jtree" where
  "cut_tree 0 (TObj k ps) = TCut"
| "cut_tree (Suc n) (TObj k ps) = TObj k (map (\<lambda>(key, t). (key, cut_tree n t)) ps)"
| "cut_tree n t = t"

section \<open>Evaluation only allocates\<close>

lemma obj_of_fields_values:
  assumes "\<forall>p \<in> set kvs. P (snd p)"
  shows "\<forall>p \<in> set (obj_of_fields kvs). P (snd p)"
proof -
  have "\<And>acc. \<forall>p \<in> set acc. P (snd p) \<Longrightarrow> \<forall>p \<in> set kvs. P (snd p) \<Longrightarrow>
      \<forall>p \<in> set (fold (\<lambda>(k, v). AList.update k v) kvs acc). P (snd p)"
  proof (induction kvs arbitrary: acc)
    case (Cons kv kvs)
    obtain k v where kv: "kv = (k, v)" by (cases kv)
    with Cons.prems alist_update_values_all [of P v acc k]
    have "\<forall>p \<in> set (AList.update k v acc). P (snd p)" by simp
    with Cons kv show ?case by simp
  qed simp
  from this [of "[]"] assms show ?thesis by (simp add: obj_of_fields_def)
qed

lemma map_snd_alist_update:
  "map (\<lambda>(k, x). (k, f x)) (AList.update k v al) = AList.update k (f v) (map (\<lambda>(k, x). (k, f x)) al)"
  by (induction al) auto

lemma obj_of_fields_map:
  "obj_of_fields (map (\<lambda>(k, x). (k, f x)) kvs) = map (\<lambda>(k, x). (k, f x)) (obj_of_fields kvs)"
proof -
  have "\<And>acc. fold (\<lambda>(k, v). AList.update k v) (map (\<lambda>(k, x). (k, f x)) kvs)
      (map (\<lambda>(k, x). (k, f x)) acc) =
    map (\<lambda>(k, x). (k, f x)) (fold (\<lambda>(k, v). AList.update k v) kvs acc)"
  proof (induction kvs arbitrary: acc)
    case (Cons kv kvs)
    obtain k v where kv: "kv = (k, v)" by (cases kv)
    have "AList.update k (f v) (map (\<lambda>(k, x). (k, f x)) acc) =
        map (\<lambda>(k, x). (k, f x)) (AList.update k v acc)"
      by (simp add: map_snd_alist_update)
    with Cons.IH [of "AList.update k v acc"] kv show ?case by simp
  qed simp
  from this [of "[]"] show ?thesis by (simp add: obj_of_fields_def)
qed

lemma array_props_values:
  "\<forall>x \<in> set vs. P x \<Longrightarrow> P (JNum (int (length vs))) \<Longrightarrow> \<forall>p \<in> set (array_props vs). P (snd p)"
  by (auto simp: array_props_def dest: set_zip_rightD)

lemma eval_grows:
  "eval_lit l h = (v, h') \<Longrightarrow> \<exists>xs. h' = h @ xs"
  "eval_fields ps h = (kvs, h') \<Longrightarrow> \<exists>xs. h' = h @ xs"
  "eval_elems es h = (vs, h') \<Longrightarrow> \<exists>xs. h' = h @ xs"
proof (induction l h and ps h and es h arbitrary: v h' and kvs h' and vs h'
    rule: eval_lit_eval_fields_eval_elems.induct)
  case (4 ps h)
  obtain kvs h1 where f: "eval_fields ps h = (kvs, h1)" by (cases "eval_fields ps h")
  with "4.prems" have "\<exists>ob. h' = h1 @ [ob]" by auto
  with "4.IH" [OF f] show ?case by auto
next
  case (5 es h)
  obtain vs h1 where f: "eval_elems es h = (vs, h1)" by (cases "eval_elems es h")
  with "5.prems" have "\<exists>ob. h' = h1 @ [ob]" by auto
  with "5.IH" [OF f] show ?case by auto
next
  case (8 k l ps h)
  obtain v1 h1 where l: "eval_lit l h = (v1, h1)" by (cases "eval_lit l h")
  obtain kvs1 h2 where f: "eval_fields ps h1 = (kvs1, h2)" by (cases "eval_fields ps h1")
  from "8.prems" l f have "h' = h2" by simp
  with "8.IH"(1) [OF l] "8.IH"(2) [OF l [symmetric] refl f] show ?case by auto
next
  case (10 l ls h)
  obtain v1 h1 where l: "eval_lit l h = (v1, h1)" by (cases "eval_lit l h")
  obtain vs1 h2 where f: "eval_elems ls h1 = (vs1, h2)" by (cases "eval_elems ls h1")
  from "10.prems" l f have "h' = h2" by simp
  with "10.IH"(1) [OF l] "10.IH"(2) [OF l [symmetric] refl f] show ?case by auto
qed auto

lemma region_closed_alloc:
  assumes "region_closed lo h" and "lo \<le> length h"
    and "\<forall>p \<in> set (props ob). val_in lo (Suc (length h)) (snd p)"
  shows "region_closed lo (h @ [ob])"
  unfolding region_closed_def
proof (intro allI impI)
  fix a assume a: "lo \<le> a \<and> a < length (h @ [ob])"
  show "\<forall>p \<in> set (props ((h @ [ob]) ! a)). val_in lo (length (h @ [ob])) (snd p)"
  proof (cases "a < length h")
    case True
    with assms(1) a have "\<forall>p \<in> set (props (h ! a)). val_in lo (length h) (snd p)"
      by (simp add: region_closed_def)
    with True show ?thesis by (auto intro: val_in_mono)
  next
    case False
    with a have "a = length h" by simp
    with assms(3) show ?thesis by simp
  qed
qed

text \<open>
  The objects a literal allocates refer only to each other, and the value it denotes lies
  among them: with \<open>lo = length h\<close> the new part of the heap is a closed region;
  with \<open>lo = 0\<close> this is preservation of well-formedness.
\<close>

lemma eval_closed:
  "eval_lit l h = (v, h') \<Longrightarrow> lo \<le> length h \<Longrightarrow> region_closed lo h \<Longrightarrow>
     region_closed lo h' \<and> val_in lo (length h') v"
  "eval_fields ps h = (kvs, h') \<Longrightarrow> lo \<le> length h \<Longrightarrow> region_closed lo h \<Longrightarrow>
     region_closed lo h' \<and> (\<forall>p \<in> set kvs. val_in lo (length h') (snd p))"
  "eval_elems es h = (vs, h') \<Longrightarrow> lo \<le> length h \<Longrightarrow> region_closed lo h \<Longrightarrow>
     region_closed lo h' \<and> (\<forall>x \<in> set vs. val_in lo (length h') x)"
proof (induction l h and ps h and es h arbitrary: v h' and kvs h' and vs h'
    rule: eval_lit_eval_fields_eval_elems.induct)
  case (4 ps h)
  obtain kvs h1 where f: "eval_fields ps h = (kvs, h1)" by (cases "eval_fields ps h")
  let ?ob = "\<lparr>kind = Ordinary, props = obj_of_fields kvs\<rparr>"
  from "4.prems"(1) f have h': "h' = h1 @ [?ob]" and v: "v = JRef (length h1)" by auto
  from "4.IH" [OF f "4.prems"(2,3)] have c1: "region_closed lo h1"
    and ok: "\<forall>p \<in> set kvs. val_in lo (Suc (length h1)) (snd p)" by (auto intro: val_in_mono)
  from "4.prems"(2) eval_grows(2) [OF f] have lo: "lo \<le> length h1" by auto
  from ok have "\<forall>p \<in> set (props ?ob). val_in lo (Suc (length h1)) (snd p)"
    by (simp add: obj_of_fields_values)
  from region_closed_alloc [OF c1 lo this] h' v lo show ?case by (simp add: val_in_def)
next
  case (5 es h)
  obtain vs h1 where f: "eval_elems es h = (vs, h1)" by (cases "eval_elems es h")
  let ?ob = "\<lparr>kind = ArrayObj, props = array_props vs\<rparr>"
  from "5.prems"(1) f have h': "h' = h1 @ [?ob]" and v: "v = JRef (length h1)" by auto
  from "5.IH" [OF f "5.prems"(2,3)] have c1: "region_closed lo h1"
    and ok: "\<forall>x \<in> set vs. val_in lo (Suc (length h1)) x" by (auto intro: val_in_mono)
  from "5.prems"(2) eval_grows(3) [OF f] have lo: "lo \<le> length h1" by auto
  from ok have "\<forall>p \<in> set (props ?ob). val_in lo (Suc (length h1)) (snd p)"
    by (simp add: array_props_values val_in_def)
  from region_closed_alloc [OF c1 lo this] h' v lo show ?case by (simp add: val_in_def)
next
  case (6 f h)
  then show ?case by (auto simp: region_closed_alloc val_in_def)
next
  case (8 k l ps h)
  obtain v1 h1 where l: "eval_lit l h = (v1, h1)" by (cases "eval_lit l h")
  obtain kvs1 h2 where f: "eval_fields ps h1 = (kvs1, h2)" by (cases "eval_fields ps h1")
  from "8.prems"(1) l f have h': "h' = h2" and kvs: "kvs = (k, v1) # kvs1" by auto
  from "8.IH"(1) [OF l "8.prems"(2,3)] have c1: "region_closed lo h1"
    and v1: "val_in lo (length h1) v1" by auto
  from "8.prems"(2) eval_grows(1) [OF l] have lo: "lo \<le> length h1" by auto
  from "8.IH"(2) [OF l [symmetric] refl f lo c1]
  have "region_closed lo h2 \<and> (\<forall>p \<in> set kvs1. val_in lo (length h2) (snd p))" .
  moreover from eval_grows(2) [OF f] v1 have "val_in lo (length h2) v1"
    by (auto intro: val_in_mono)
  ultimately show ?case using h' kvs by simp
next
  case (10 l ls h)
  obtain v1 h1 where l: "eval_lit l h = (v1, h1)" by (cases "eval_lit l h")
  obtain vs1 h2 where f: "eval_elems ls h1 = (vs1, h2)" by (cases "eval_elems ls h1")
  from "10.prems"(1) l f have h': "h' = h2" and vs: "vs = v1 # vs1" by auto
  from "10.IH"(1) [OF l "10.prems"(2,3)] have c1: "region_closed lo h1"
    and v1: "val_in lo (length h1) v1" by auto
  from "10.prems"(2) eval_grows(1) [OF l] have lo: "lo \<le> length h1" by auto
  from "10.IH"(2) [OF l [symmetric] refl f lo c1]
  have "region_closed lo h2 \<and> (\<forall>x \<in> set vs1. val_in lo (length h2) x)" .
  moreover from eval_grows(3) [OF f] v1 have "val_in lo (length h2) v1"
    by (auto intro: val_in_mono)
  ultimately show ?case using h' vs by simp
qed (auto simp: val_in_def)

lemma val_ok_val_in: "val_ok h v = val_in 0 (length h) v"
  by (cases v) (auto simp: val_in_def)

lemma eval_wf:
  "eval_lit l h = (v, h') \<Longrightarrow> wf_heap h \<Longrightarrow> wf_heap h' \<and> val_ok h' v"
  "eval_fields ps h = (kvs, h') \<Longrightarrow> wf_heap h \<Longrightarrow> wf_heap h' \<and> (\<forall>p \<in> set kvs. val_ok h' (snd p))"
  "eval_elems es h = (vs, h') \<Longrightarrow> wf_heap h \<Longrightarrow> wf_heap h' \<and> (\<forall>x \<in> set vs. val_ok h' x)"
  by (auto simp: wf_heap_region val_ok_val_in dest: eval_closed [where lo = 0])

text \<open>With \<open>lo\<close> the old heap size, the new part of the heap is a closed region.\<close>

lemma region_closed_fresh [simp]: "region_closed (length h) h"
  by (auto simp: region_closed_def)

lemma elems_tree_length [simp]: "length (elems_tree es) = length es"
  by (induction es) auto

lemma map_snd_cong:
  "\<forall>p \<in> set al. f (snd p) = g (snd p) \<Longrightarrow> map (\<lambda>(k, x). (k, f x)) al = map (\<lambda>(k, x). (k, g x)) al"
  by (induction al) auto

lemma deep_read_grown:
  "wf_heap h \<Longrightarrow> val_ok h v \<Longrightarrow> \<exists>xs. h' = h @ xs \<Longrightarrow> deep_read n h' v = deep_read n h v"
  using deep_read_append by blast

section \<open>Evaluation is read back exactly\<close>

lemma eval_read:
  "eval_lit l h = (v, h') \<Longrightarrow> wf_heap h \<Longrightarrow> deep_read n h' v = cut_tree n (lit_tree l)"
  "eval_fields ps h = (kvs, h') \<Longrightarrow> wf_heap h \<Longrightarrow>
     map (\<lambda>(k, x). (k, deep_read n h' x)) kvs = map (\<lambda>(k, t). (k, cut_tree n t)) (fields_tree ps)"
  "eval_elems es h = (vs, h') \<Longrightarrow> wf_heap h \<Longrightarrow>
     map (deep_read n h') vs = map (cut_tree n) (elems_tree es)"
proof (induction l h and ps h and es h arbitrary: v h' n and kvs h' n and vs h' n
    rule: eval_lit_eval_fields_eval_elems.induct)
  case (4 ps h)
  obtain kvs h1 where f: "eval_fields ps h = (kvs, h1)" by (cases "eval_fields ps h")
  let ?ob = "\<lparr>kind = Ordinary, props = obj_of_fields kvs\<rparr>"
  from "4.prems"(1) f have h': "h' = h1 @ [?ob]" and v: "v = JRef (length h1)" by auto
  show ?case
  proof (cases n)
    case 0
    with v show ?thesis by simp
  next
    case (Suc m)
    from eval_wf(2) [OF f "4.prems"(2)] have wf1: "wf_heap h1"
      and ok: "\<forall>p \<in> set kvs. val_ok h1 (snd p)" by auto
    have "\<forall>p \<in> set (obj_of_fields kvs). deep_read m h' (snd p) = deep_read m h1 (snd p)"
      using ok h' wf1 by (intro obj_of_fields_values) (simp add: deep_read_append)
    then have "map (\<lambda>(k, x). (k, deep_read m h' x)) (obj_of_fields kvs) =
        map (\<lambda>(k, x). (k, deep_read m h1 x)) (obj_of_fields kvs)"
      by (rule map_snd_cong)
    also have "\<dots> = obj_of_fields (map (\<lambda>(k, x). (k, deep_read m h1 x)) kvs)"
      by (rule obj_of_fields_map [symmetric])
    also have "\<dots> = obj_of_fields (map (\<lambda>(k, t). (k, cut_tree m t)) (fields_tree ps))"
      by (simp add: "4.IH" [OF f "4.prems"(2)])
    also have "\<dots> = map (\<lambda>(k, t). (k, cut_tree m t)) (obj_of_fields (fields_tree ps))"
      by (rule obj_of_fields_map)
    finally show ?thesis using h' v Suc by simp
  qed
next
  case (5 es h)
  obtain vs h1 where f: "eval_elems es h = (vs, h1)" by (cases "eval_elems es h")
  let ?ob = "\<lparr>kind = ArrayObj, props = array_props vs\<rparr>"
  from "5.prems"(1) f have h': "h' = h1 @ [?ob]" and v: "v = JRef (length h1)" by auto
  show ?case
  proof (cases n)
    case 0
    with v show ?thesis by simp
  next
    case (Suc m)
    from eval_wf(3) [OF f "5.prems"(2)] have wf1: "wf_heap h1"
      and ok: "\<forall>x \<in> set vs. val_ok h1 x" by auto
    have IH: "map (deep_read m h1) vs = map (cut_tree m) (elems_tree es)"
      by (rule "5.IH" [OF f "5.prems"(2)])
    then have len: "length vs = length es"
      by (metis length_map elems_tree_length)
    have "map (deep_read m h') vs = map (deep_read m h1) vs"
      using ok h' wf1 by (simp add: deep_read_append)
    with IH len h' v Suc show ?thesis
      by (simp add: array_props_def zip_map2 [symmetric])
  qed
next
  case (6 f h)
  then show ?case by (cases n) auto
next
  case (8 k l ps h)
  obtain v1 h1 where l: "eval_lit l h = (v1, h1)" by (cases "eval_lit l h")
  obtain kvs1 h2 where f: "eval_fields ps h1 = (kvs1, h2)" by (cases "eval_fields ps h1")
  from "8.prems"(1) l f have h': "h' = h2" and kvs: "kvs = (k, v1) # kvs1" by auto
  from eval_wf(1) [OF l "8.prems"(2)] have wf1: "wf_heap h1" and v1: "val_ok h1 v1" by auto
  have "deep_read n h2 v1 = deep_read n h1 v1"
    using wf1 v1 eval_grows(2) [OF f] by (rule deep_read_grown)
  also have "\<dots> = cut_tree n (lit_tree l)" by (rule "8.IH"(1) [OF l "8.prems"(2)])
  finally show ?case
    using "8.IH"(2) [OF l [symmetric] refl f wf1] h' kvs by simp
next
  case (10 l ls h)
  obtain v1 h1 where l: "eval_lit l h = (v1, h1)" by (cases "eval_lit l h")
  obtain vs1 h2 where f: "eval_elems ls h1 = (vs1, h2)" by (cases "eval_elems ls h1")
  from "10.prems"(1) l f have h': "h' = h2" and vs: "vs = v1 # vs1" by auto
  from eval_wf(1) [OF l "10.prems"(2)] have wf1: "wf_heap h1" and v1: "val_ok h1 v1" by auto
  have "deep_read n h2 v1 = deep_read n h1 v1"
    using wf1 v1 eval_grows(3) [OF f] by (rule deep_read_grown)
  also have "\<dots> = cut_tree n (lit_tree l)" by (rule "10.IH"(1) [OF l "10.prems"(2)])
  finally show ?case
    using "10.IH"(2) [OF l [symmetric] refl f wf1] h' vs by simp
qed auto

text \<open>With fuel at least the literal's depth nothing is cut.\<close>

lemma cut_tree_lit:
  "lit_depth l \<le> n \<Longrightarrow> cut_tree n (lit_tree l) = lit_tree l"
  "fields_depth ps \<le> n \<Longrightarrow> map (\<lambda>(k, t). (k, cut_tree n t)) (fields_tree ps) = fields_tree ps"
  "elems_depth es \<le> n \<Longrightarrow> map (cut_tree n) (elems_tree es) = elems_tree es"
proof (induction l and ps and es arbitrary: n and n and n rule: lit_tree_fields_tree_elems_tree.induct)
  case (4 ps)
  then obtain m where n: "n = Suc m" and d: "fields_depth ps \<le> m" by (cases n) auto
  have "map (\<lambda>(k, t). (k, cut_tree m t)) (obj_of_fields (fields_tree ps)) =
      obj_of_fields (map (\<lambda>(k, t). (k, cut_tree m t)) (fields_tree ps))"
    by (rule obj_of_fields_map [symmetric])
  with "4.IH" [OF d] n show ?case by simp
next
  case (5 es)
  then obtain m where n: "n = Suc m" and d: "elems_depth es \<le> m" by (cases n) auto
  with "5.IH" [OF d] show ?case by (simp add: zip_map2 [symmetric])
next
  case (6 f)
  then show ?case by (cases n) auto
qed auto

corollary eval_read_full:
  "eval_lit l h = (v, h') \<Longrightarrow> wf_heap h \<Longrightarrow> lit_depth l \<le> n \<Longrightarrow> deep_read n h' v = lit_tree l"
  by (simp add: eval_read(1) cut_tree_lit(1))

end
