(* ===== verification/NextConfig.thy ===== *)
theory NextConfig
  imports JsLiteral "HOL-Library.Monad_Syntax"
begin

text \<open>
  The configuration module \<open>src/next.config.js\<close>: the object literal bound to
  \<open>nextConfig\<close> (lines 2--21) and its export \<open>module.exports = nextConfig\<close> (line 23).
  Loading the module evaluates the literal into the heap and writes the result into the
  \<open>exports\<close> property of the module object that Node's loader passes in. The body of
  the \<open>webpack\<close> arrow function is modelled in theory \<open>WebpackHook\<close>; here it is the
  closure \<open>LFun ''webpack''\<close> that the literal allocates.

  \<open>build_config\<close> is the typed record of the specification's data model
  (\<open>BuildConfiguration\<close>: experimental flags with the compiler plugins, the image source
  allow-list, the resolution hook), and \<open>config_view\<close> reads it from a deep read of the
  exported object, the way the build tool reads the fields.
\<close>

section \<open>The module\<close>

definition nextConfig :: lit where
  "nextConfig =
     LObj
      [(''experimental'',
          LObj [(''appDir'', LBool True),
                (''swcPlugins'', LArr [LArr [LStr ''next-superjson-plugin'', LObj []]])]),
       (''images'',
          LObj [(''domains'',
                   LArr [LStr ''res.cloudinary.com'',
                         LStr ''avatars.githubusercontent.com'',
                         LStr ''lh3.googleusercontent.com''])]),
       (''webpack'', LFun ''webpack'')]"

definition load_next_config :: "heap \<Rightarrow> js_val \<Rightarrow> js_error + (js_val \<times> heap)" where
  "load_next_config h module =
     (let (cfg, h1) = eval_lit nextConfig h
      in case set_prop h1 module ''exports'' cfg of
           Inl e \<Rightarrow> Inl e
         | Inr h2 \<Rightarrow> Inr (cfg, h2))"

section \<open>The typed view of the specification\<close>

record build_config =
  appDir :: bool
  swcPlugins :: "(string \<times> jtree) list"
  imageDomains :: "string list"
  webpackHook :: "string option"

fun tree_get :: "key \<Rightarrow> jtree \<Rightarrow> jtree option" where
  "tree_get k (TObj _ ps) = map_of ps k"
| "tree_get k _ = None"

fun tree_truthy :: "jtree \<Rightarrow> bool" where
  "tree_truthy (TVal v) = truthy v"
| "tree_truthy _ = True"

fun tree_str :: "jtree \<Rightarrow> string option" where
  "tree_str (TVal (JStr s)) = Some s"
| "tree_str _ = None"

text \<open>An array is read as the build tool iterates it: indices below its \<open>length\<close>.\<close>

fun tree_elems :: "jtree \<Rightarrow> jtree list option" where
  "tree_elems (TObj ArrayObj ps) =
     (case map_of ps ''length'' of
        Some (TVal (JNum n)) \<Rightarrow> those (map (\<lambda>i. map_of ps (nat_str i)) [0..<nat n])
      | _ \<Rightarrow> None)"
| "tree_elems _ = None"

fun tree_closure :: "jtree \<Rightarrow> string option" where
  "tree_closure (TObj (Closure f) _) = Some f"
| "tree_closure _ = None"

definition tree_plugin :: "jtree \<Rightarrow> (string \<times> jtree) option" where
  "tree_plugin t =
     (case tree_elems t of
        Some [n, opts] \<Rightarrow> map_option (\<lambda>s. (s, opts)) (tree_str n)
      | _ \<Rightarrow> None)"

definition config_view :: "jtree \<Rightarrow> build_config option" where
  "config_view t = do {
     ex \<leftarrow> tree_get ''experimental'' t;
     plugins \<leftarrow> tree_get ''swcPlugins'' ex \<bind> tree_elems;
     ps \<leftarrow> those (map tree_plugin plugins);
     imgs \<leftarrow> tree_get ''images'' t;
     doms \<leftarrow> tree_get ''domains'' imgs \<bind> tree_elems;
     ds \<leftarrow> those (map tree_str doms);
     Some \<lparr>appDir = (case tree_get ''appDir'' ex of Some a \<Rightarrow> tree_truthy a | None \<Rightarrow> False),
           swcPlugins = ps,
           imageDomains = ds,
           webpackHook = tree_get ''webpack'' t \<bind> tree_closure\<rparr>
   }"

text \<open>The configuration the specification describes (sections 3 and 8).\<close>

definition build_configuration :: build_config where
  "build_configuration =
     \<lparr>appDir = True,
      swcPlugins = [(''next-superjson-plugin'', TObj Ordinary [])],
      imageDomains = [''res.cloudinary.com'', ''avatars.githubusercontent.com'',
                      ''lh3.googleusercontent.com''],
      webpackHook = Some ''webpack''\<rparr>"

text \<open>
  The heap Node's loader has built when the module body runs: the initial
  \<open>module.exports\<close> object at address 0 and the \<open>module\<close> object at address 1.
\<close>

definition node_module_heap :: heap where
  "node_module_heap =
     [\<lparr>kind = Ordinary, props = []\<rparr>, \<lparr>kind = Ordinary, props = [(''exports'', JRef 0)]\<rparr>]"

section \<open>Loading the module\<close>

lemma nextConfig_depth: "lit_depth nextConfig = 5"
  by (simp add: nextConfig_def)

lemma nextConfig_view: "config_view (lit_tree nextConfig) = Some build_configuration"
  by code_simp

lemma load_next_config_Inr:
  "load_next_config h m = Inr (v, h') \<Longrightarrow>
     \<exists>h1. eval_lit nextConfig h = (v, h1) \<and> set_prop h1 m ''exports'' v = Inr h'"
  by (auto simp: load_next_config_def split: prod.splits sum.splits)

lemma node_module_heap_wf: "wf_heap node_module_heap"
  by (simp add: node_module_heap_def wf_heap_def obj_ok_def)

lemma load_next_config_ok:
  assumes wf: "wf_heap h" and a: "a < length h"
  shows "\<exists>v h'. load_next_config h (JRef a) = Inr (v, h') \<and> wf_heap h' \<and>
           get_prop h' (JRef a) ''exports'' = Inr v"
proof -
  obtain v h1 where ev: "eval_lit nextConfig h = (v, h1)" by (cases "eval_lit nextConfig h")
  from eval_wf(1) [OF ev wf] have wf1: "wf_heap h1" and v: "val_ok h1 v" by auto
  from eval_grows(1) [OF ev] a have a1: "a < length h1" by auto
  then obtain h' where set: "set_prop h1 (JRef a) ''exports'' v = Inr h'" by simp
  from set_prop_wf [OF wf1 v set] have "wf_heap h'" .
  moreover from get_set_prop_same [OF set] have "get_prop h' (JRef a) ''exports'' = Inr v" .
  moreover from ev set have "load_next_config h (JRef a) = Inr (v, h')"
    by (simp add: load_next_config_def)
  ultimately show ?thesis by blast
qed

lemma exported_config_reads:
  assumes wf: "wf_heap h" and m: "val_ok h m"
    and load: "load_next_config h m = Inr (v, h')"
  shows "deep_read n h' v = cut_tree n (lit_tree nextConfig)"
proof -
  from load_next_config_Inr [OF load] obtain h1 where ev: "eval_lit nextConfig h = (v, h1)"
    and set: "set_prop h1 m ''exports'' v = Inr h'" by blast
  from eval_closed(1) [OF ev order_refl region_closed_fresh]
  have closed: "region_closed (length h) h1" and vin: "val_in (length h) (length h1) v" by auto
  have same: "\<forall>a. length h \<le> a \<and> a < length h1 \<longrightarrow> a < length h' \<and> h' ! a = h1 ! a"
  proof (intro allI impI)
    fix a assume a: "length h \<le> a \<and> a < length h1"
    with m have "m \<noteq> JRef a" by auto
    with set a show "a < length h' \<and> h' ! a = h1 ! a"
      by (simp add: set_prop_length set_prop_other_obj)
  qed
  from deep_read_region [OF closed vin same] eval_read(1) [OF ev wf]
  show ?thesis by simp
qed

text \<open>Read with fuel at least 5, the depth of the literal, nothing of the exported object is
  cut, and the build tool's typed view of it is the specification's record.\<close>

lemma exported_config_full:
  assumes "wf_heap h" and "val_ok h m" and "load_next_config h m = Inr (v, h')" and "5 \<le> n"
  shows "deep_read n h' v = lit_tree nextConfig"
proof -
  from assms(4) have "lit_depth nextConfig \<le> n" by (simp add: nextConfig_depth)
  with exported_config_reads [OF assms(1-3)] show ?thesis by (simp add: cut_tree_lit(1))
qed

lemma exported_config_view:
  assumes "wf_heap h" and "val_ok h m" and "load_next_config h m = Inr (v, h')" and "5 \<le> n"
  shows "config_view (deep_read n h' v) = Some build_configuration"
  using exported_config_full [OF assms] nextConfig_view by simp

text \<open>Loading changes no property of an older object but \<open>module.exports\<close>.\<close>

lemma load_next_config_old_reads:
  assumes x: "val_ok h x" and xk: "(x, k) \<noteq> (m, ''exports'')"
    and load: "load_next_config h m = Inr (cfg, h1)"
  shows "get_prop h1 x k = get_prop h x k"
proof -
  from load_next_config_Inr [OF load] obtain h0 where ev: "eval_lit nextConfig h = (cfg, h0)"
    and set: "set_prop h0 m ''exports'' cfg = Inr h1" by blast
  from eval_grows(1) [OF ev] obtain xs where h0: "h0 = h @ xs" by blast
  from get_set_prop_other [OF set xk] h0 x show ?thesis by (simp add: get_prop_append)
qed

lemma load_next_config_len:
  "load_next_config h m = Inr (cfg, h1) \<Longrightarrow> length h \<le> length h1"
  by (auto dest!: load_next_config_Inr eval_grows(1) set_prop_length)

lemma node_module_load:
  "\<exists>v h'. load_next_config node_module_heap (JRef 1) = Inr (v, h')"
  using load_next_config_ok [OF node_module_heap_wf, of 1] by (auto simp: node_module_heap_def)

lemma node_module_ok: "val_ok node_module_heap (JRef 1)"
  by (simp add: node_module_heap_def)

text \<open>C19. Loading the module from any well-formed heap, with the module object allocated,
  succeeds, keeps the heap well formed, and leaves the configuration in
  \<open>module.exports\<close>.\<close>

theorem load_next_config_exports:
  assumes "wf_heap h" and "a < length h"
  shows "\<exists>v h'. load_next_config h (JRef a) = Inr (v, h') \<and> wf_heap h' \<and>
           get_prop h' (JRef a) ''exports'' = Inr v"
  using assms by (rule load_next_config_ok)

lemma load_next_config_exports_witness:
  "\<exists>v h'. load_next_config node_module_heap (JRef 1) = Inr (v, h') \<and> wf_heap h' \<and>
     get_prop h' (JRef 1) ''exports'' = Inr v"
  using load_next_config_exports [OF node_module_heap_wf, of 1]
  by (simp add: node_module_heap_def)

text \<open>C9. Whatever the heap before, the exported object reads back as the literal of lines
  2--21, cut at the fuel of the read: writing \<open>module.exports\<close> touches no object of
  the configuration.\<close>

theorem load_next_config_read:
  assumes "wf_heap h" and "val_ok h m" and "load_next_config h m = Inr (v, h')"
  shows "deep_read n h' v = cut_tree n (lit_tree nextConfig)"
  using assms by (rule exported_config_reads)

lemma load_next_config_read_witness:
  "\<exists>v h'. load_next_config node_module_heap (JRef 1) = Inr (v, h') \<and>
     deep_read 5 h' v = cut_tree 5 (lit_tree nextConfig)"
proof -
  obtain v h' where load: "load_next_config node_module_heap (JRef 1) = Inr (v, h')"
    using node_module_load by blast
  from load_next_config_read [OF node_module_heap_wf node_module_ok load] load show ?thesis by blast
qed

text \<open>C6. Refinement of the specification's data model: the build tool's typed view of the
  exported object is the \<open>BuildConfiguration\<close> of sections 3 and 8 (the app directory
  flag on, the single plugin \<open>next-superjson-plugin\<close> with empty options, the three
  image hosts in order, the \<open>webpack\<close> hook).\<close>

theorem load_next_config_refines:
  assumes "wf_heap h" and "val_ok h m" and "load_next_config h m = Inr (v, h')" and "5 \<le> n"
  shows "config_view (deep_read n h' v) = Some build_configuration"
  using assms by (rule exported_config_view)

lemma load_next_config_refines_witness:
  "\<exists>v h'. load_next_config node_module_heap (JRef 1) = Inr (v, h') \<and>
     config_view (deep_read 5 h' v) = Some build_configuration"
proof -
  obtain v h' where load: "load_next_config node_module_heap (JRef 1) = Inr (v, h')"
    using node_module_load by blast
  from load_next_config_refines [OF node_module_heap_wf node_module_ok load order_refl] load
  show ?thesis by blast
qed

end
