(* ===== verification/WebpackHook.thy ===== *)
theory WebpackHook
  imports NextConfig
begin

text \<open>
  The \<open>webpack\<close> property of the configuration (lines 14--20 of
  \<open>src/next.config.js\<close>):
  \<^verbatim>\<open>
  webpack: (config, { isServer }) => {
    if (!isServer) {
      config.resolve.fallback = { fs: false, path: false };
    }
    return config;
  },
  \<close>
  \<open>webpack\<close> runs the body on a heap: it destructures \<open>isServer\<close> from the second
  argument, tests it with \<open>ToBoolean\<close>, and on a client build reads
  \<open>config.resolve\<close>, allocates the new fallback object and assigns it, in the order
  ECMAScript evaluates an assignment (the base of the left side, then the right side,
  then the write). It returns the object it was given. \<open>call_closure\<close> is the
  dispatch from a closure of the module to its body, the way the build tool's call
  \<open>nextConfig.webpack(config, options)\<close> reaches it.
\<close>

section \<open>The hook\<close>

definition fallback_lit :: lit where
  "fallback_lit = LObj [(''fs'', LBool False), (''path'', LBool False)]"

definition webpack :: "heap \<Rightarrow> js_val \<Rightarrow> js_val \<Rightarrow> js_error + (js_val \<times> heap)" where
  "webpack h config opts =
     (case destructure_prop h opts ''isServer'' of
        Inl e \<Rightarrow> Inl e
      | Inr isServer \<Rightarrow>
          (if \<not> truthy isServer then
             (case get_prop h config ''resolve'' of
                Inl e \<Rightarrow> Inl e
              | Inr r \<Rightarrow>
                  (let (fb, h1) = eval_lit fallback_lit h
                   in case set_prop h1 r ''fallback'' fb of
                        Inl e \<Rightarrow> Inl e
                      | Inr h2 \<Rightarrow> Inr (config, h2)))
           else Inr (config, h)))"

definition call_closure :: "string \<Rightarrow> heap \<Rightarrow> js_val \<Rightarrow> js_val \<Rightarrow> js_error + (js_val \<times> heap)" where
  "call_closure f h x y = (if f = ''webpack'' then webpack h x y else Inl NotCallable)"

text \<open>The fallback object a client build ends up with.\<close>

definition fallback_obj :: js_obj where
  "fallback_obj = \<lparr>kind = Ordinary, props = [(''fs'', JBool False), (''path'', JBool False)]\<rparr>"

section \<open>The specification's contract\<close>

text \<open>
  Section 4 of the specification: \<open>adjustResolution(settings, isServerTarget)\<close> forces
  the two fallback entries \<open>fs\<close> and \<open>path\<close> to disabled on a client build and keeps
  every other entry; on a server build it returns the settings unchanged. Fallback
  tables are maps from module names to values.
\<close>

definition adjust_resolution :: "bool \<Rightarrow> (key \<rightharpoonup> js_val) \<Rightarrow> (key \<rightharpoonup> js_val)" where
  "adjust_resolution is_server fb =
     (if is_server then fb else fb(''fs'' \<mapsto> JBool False, ''path'' \<mapsto> JBool False))"

text \<open>
  The fallback table of a bundler configuration \<open>config\<close> as a map: the own properties
  of \<open>config.resolve.fallback\<close> when that is an object, no entry otherwise.
\<close>

definition fallback_map :: "heap \<Rightarrow> js_val \<Rightarrow> (key \<rightharpoonup> js_val)" where
  "fallback_map h config =
     (case get_prop h config ''resolve'' of
        Inr r \<Rightarrow>
          (case get_prop h r ''fallback'' of
             Inr (JRef b) \<Rightarrow> (if b < length h then map_of (props (h ! b)) else Map.empty)
           | _ \<Rightarrow> Map.empty)
      | Inl _ \<Rightarrow> Map.empty)"

section \<open>A test heap\<close>

text \<open>
  A bundler configuration as in section 8 of the specification: \<open>config\<close> at 2 with
  \<open>resolve\<close> at 1, whose \<open>fallback\<close> at 0 is \<open>{fs: true, path: true, other: true}\<close>;
  options objects with \<open>isServer\<close> false (3), true (4) and missing (5); an object at 6
  holding a second reference to \<open>resolve\<close>; a configuration without \<open>resolve\<close> (7).
\<close>

definition hook_test_heap :: heap where
  "hook_test_heap =
     [\<lparr>kind = Ordinary, props = [(''fs'', JBool True), (''path'', JBool True), (''other'', JBool True)]\<rparr>,
      \<lparr>kind = Ordinary, props = [(''fallback'', JRef 0)]\<rparr>,
      \<lparr>kind = Ordinary, props = [(''resolve'', JRef 1)]\<rparr>,
      \<lparr>kind = Ordinary, props = [(''isServer'', JBool False)]\<rparr>,
      \<lparr>kind = Ordinary, props = [(''isServer'', JBool True)]\<rparr>,
      \<lparr>kind = Ordinary, props = []\<rparr>,
      \<lparr>kind = Ordinary, props = [(''shared'', JRef 1)]\<rparr>,
      \<lparr>kind = Ordinary, props = []\<rparr>]"

section \<open>Behaviour of the hook\<close>

lemma webpack_client:
  assumes s: "destructure_prop h opts ''isServer'' = Inr s" and ns: "\<not> truthy s"
    and r: "get_prop h config ''resolve'' = Inr (JRef r)" and rl: "r < length h"
  shows "webpack h config opts =
    Inr (config, (h @ [fallback_obj])[r := (h ! r)\<lparr>props := AList.update ''fallback'' (JRef (length h)) (props (h ! r))\<rparr>])"
  using s ns r rl
  by (simp add: webpack_def fallback_lit_def fallback_obj_def obj_of_fields_def nth_append)

lemma webpack_server:
  "destructure_prop h opts ''isServer'' = Inr s \<Longrightarrow> truthy s \<Longrightarrow> webpack h config opts = Inr (config, h)"
  by (simp add: webpack_def)

text \<open>The heap after a client build, as reads see it.\<close>

lemma webpack_client_reads:
  assumes wf: "wf_heap h" and c: "val_ok h config"
    and r: "get_prop h config ''resolve'' = Inr (JRef r)"
  defines "h' \<equiv> (h @ [fallback_obj])[r := (h ! r)\<lparr>props := AList.update ''fallback'' (JRef (length h)) (props (h ! r))\<rparr>]"
  shows "r < length h"
    and "\<And>x p. val_ok h x \<Longrightarrow> (x, p) \<noteq> (JRef r, ''fallback'') \<Longrightarrow> get_prop h' x p = get_prop h x p"
    and "get_prop h' (JRef r) ''fallback'' = Inr (JRef (length h))"
    and "length h < length h'" and "h' ! length h = fallback_obj"
proof -
  from get_prop_val_ok [OF wf c r] show rl: "r < length h" by simp
  then have set: "set_prop (h @ [fallback_obj]) (JRef r) ''fallback'' (JRef (length h)) = Inr h'"
    by (simp add: h'_def nth_append)
  show "\<And>x p. val_ok h x \<Longrightarrow> (x, p) \<noteq> (JRef r, ''fallback'') \<Longrightarrow> get_prop h' x p = get_prop h x p"
    using get_set_prop_other [OF set] by (simp add: get_prop_append)
  show "get_prop h' (JRef r) ''fallback'' = Inr (JRef (length h))"
    by (rule get_set_prop_same [OF set])
  show "length h < length h'" by (simp add: h'_def)
  from rl show "h' ! length h = fallback_obj" by (simp add: h'_def)
qed

lemma webpack_client_fallback:
  assumes wf: "wf_heap h" and c: "val_ok h config"
    and s: "destructure_prop h opts ''isServer'' = Inr s" and ns: "\<not> truthy s"
    and r: "get_prop h config ''resolve'' = Inr (JRef r)"
  shows "\<exists>h'. webpack h config opts = Inr (config, h') \<and>
           fallback_map h' config = map_of [(''fs'', JBool False), (''path'', JBool False)]"
proof -
  let ?h' = "(h @ [fallback_obj])[r := (h ! r)\<lparr>props := AList.update ''fallback'' (JRef (length h)) (props (h ! r))\<rparr>]"
  note rd = webpack_client_reads [OF wf c r]
  have "get_prop ?h' config ''resolve'' = Inr (JRef r)"
    using rd(2) [OF c] r by simp
  with rd(3,4,5) have "fallback_map ?h' config = map_of [(''fs'', JBool False), (''path'', JBool False)]"
    by (simp add: fallback_map_def fallback_obj_def)
  with webpack_client [OF s ns r rd(1)] show ?thesis by blast
qed

text \<open>Every value whose \<open>resolve\<close> is the same object sees the new table too.\<close>

lemma webpack_client_fallback_shared:
  assumes wf: "wf_heap h" and c: "val_ok h config"
    and s: "destructure_prop h opts ''isServer'' = Inr s" and ns: "\<not> truthy s"
    and r: "get_prop h config ''resolve'' = Inr (JRef r)"
    and ok: "webpack h config opts = Inr (v, h')"
    and x: "val_ok h x" and rx: "get_prop h x ''resolve'' = Inr (JRef r)"
  shows "fallback_map h' x = map_of [(''fs'', JBool False), (''path'', JBool False)]"
proof -
  note rd = webpack_client_reads [OF wf c r]
  from webpack_client [OF s ns r rd(1)] ok
  have h': "h' = (h @ [fallback_obj])[r := (h ! r)\<lparr>props := AList.update ''fallback'' (JRef (length h)) (props (h ! r))\<rparr>]"
    by simp
  have "get_prop h' x ''resolve'' = Inr (JRef r)"
    using rd(2) [OF x] rx h' by simp
  with rd(3,4,5) h' show ?thesis
    by (simp add: fallback_map_def fallback_obj_def)
qed

text \<open>The shape of every successful call: the options, then either nothing (server) or
  the table allocated at the end of the heap and assigned to \<open>config.resolve.fallback\<close>.\<close>

lemma webpack_Inr:
  assumes "webpack h config opts = Inr (v, h')"
  shows "\<exists>s. destructure_prop h opts ''isServer'' = Inr s \<and> v = config \<and>
           (truthy s \<longrightarrow> h' = h) \<and>
           (\<not> truthy s \<longrightarrow> (\<exists>r. get_prop h config ''resolve'' = Inr r \<and>
              set_prop (h @ [fallback_obj]) r ''fallback'' (JRef (length h)) = Inr h'))"
  using assms
  by (auto simp: webpack_def fallback_lit_def fallback_obj_def obj_of_fields_def
      split: sum.splits if_splits prod.splits)

lemma hook_test_heap_wf: "wf_heap hook_test_heap"
  by (simp add: hook_test_heap_def wf_heap_def obj_ok_def)

lemma hook_test_heap_reads:
  "destructure_prop hook_test_heap (JRef 3) ''isServer'' = Inr (JBool False)"
  "destructure_prop hook_test_heap (JRef 4) ''isServer'' = Inr (JBool True)"
  "destructure_prop hook_test_heap (JRef 5) ''isServer'' = Inr JUndef"
  "get_prop hook_test_heap (JRef 2) ''resolve'' = Inr (JRef 1)"
  "get_prop hook_test_heap (JRef 7) ''resolve'' = Inr JUndef"
  "val_ok hook_test_heap (JRef 2)"
  by (simp_all add: hook_test_heap_def destructure_prop_def)

text \<open>C1. On a client build (a falsy \<open>isServer\<close>) with \<open>config.resolve\<close> an object, the hook succeeds, returns \<open>config\<close>, and afterwards the fallback table of \<open>config.resolve\<close> holds exactly \<open>fs: false\<close> and \<open>path: false\<close>: whatever entries it had before are gone.\<close>

theorem webpack_replaces_fallback:
  assumes "wf_heap h" and "val_ok h config"
    and "destructure_prop h opts ''isServer'' = Inr s" and "\<not> truthy s"
    and "get_prop h config ''resolve'' = Inr (JRef r)"
  shows "\<exists>h'. webpack h config opts = Inr (config, h') \<and>
           fallback_map h' config = map_of [(''fs'', JBool False), (''path'', JBool False)]"
  using assms by (rule webpack_client_fallback)

lemma webpack_replaces_fallback_witness:
  "\<exists>h'. webpack hook_test_heap (JRef 2) (JRef 3) = Inr (JRef 2, h') \<and>
      fallback_map h' (JRef 2) = map_of [(''fs'', JBool False), (''path'', JBool False)]"
  using webpack_replaces_fallback [OF hook_test_heap_wf hook_test_heap_reads(6)
      hook_test_heap_reads(1) _ hook_test_heap_reads(4)]
  by simp

lemma hook_test_client:
  "\<exists>h'. webpack hook_test_heap (JRef 2) (JRef 3) = Inr (JRef 2, h')"
  using webpack_client_fallback [OF hook_test_heap_wf hook_test_heap_reads(6)
      hook_test_heap_reads(1) _ hook_test_heap_reads(4)]
  by auto

lemma map_upd_two_eq_iff:
  assumes "a \<noteq> b"
  shows "map_of [(a, x), (b, y)] = fb(a \<mapsto> x, b \<mapsto> y) \<longleftrightarrow> dom fb \<subseteq> {a, b}"
proof
  assume "map_of [(a, x), (b, y)] = fb(a \<mapsto> x, b \<mapsto> y)"
  then have "dom (fb(a \<mapsto> x, b \<mapsto> y)) = {a, b}" by (metis dom_map_of_conv_image_fst image_insert
      image_empty list.set(1) list.set(2) fst_conv)
  then show "dom fb \<subseteq> {a, b}" by auto
next
  assume "dom fb \<subseteq> {a, b}"
  then have "\<And>k. k \<notin> {a, b} \<Longrightarrow> fb k = None" by auto
  with assms show "map_of [(a, x), (b, y)] = fb(a \<mapsto> x, b \<mapsto> y)"
    by (auto simp: fun_eq_iff)
qed

text \<open>C2. The hook implements the specification's \<open>adjustResolution\<close> on the fallback table exactly when the build is a server build or the incoming table has no entry besides \<open>fs\<close> and \<open>path\<close>.\<close>

theorem webpack_refines_adjust_resolution:
  assumes wf: "wf_heap h" and c: "val_ok h config"
    and s: "destructure_prop h opts ''isServer'' = Inr s"
    and r: "get_prop h config ''resolve'' = Inr (JRef r)"
    and ok: "webpack h config opts = Inr (v, h')"
  shows "fallback_map h' config = adjust_resolution (truthy s) (fallback_map h config) \<longleftrightarrow>
         truthy s \<or> dom (fallback_map h config) \<subseteq> {''fs'', ''path''}"
proof (cases "truthy s")
  case True
  with webpack_server [OF s] ok have "h' = h" by simp
  with True show ?thesis by (simp add: adjust_resolution_def)
next
  case False
  from webpack_client_fallback [OF wf c s False r] ok
  have "fallback_map h' config = map_of [(''fs'', JBool False), (''path'', JBool False)]" by auto
  with False map_upd_two_eq_iff [of "''fs''" "''path''" "JBool False" "JBool False" "fallback_map h config"]
  show ?thesis by (simp add: adjust_resolution_def)
qed

lemma webpack_refines_adjust_resolution_witness:
  "\<exists>h'. webpack hook_test_heap (JRef 2) (JRef 3) = Inr (JRef 2, h') \<and>
      fallback_map h' (JRef 2) \<noteq> adjust_resolution False (fallback_map hook_test_heap (JRef 2))"
proof -
  obtain h' where ok: "webpack hook_test_heap (JRef 2) (JRef 3) = Inr (JRef 2, h')"
    using hook_test_client by blast
  have "dom (fallback_map hook_test_heap (JRef 2)) = {''fs'', ''path'', ''other''}"
    by (simp add: fallback_map_def hook_test_heap_def)
  with webpack_refines_adjust_resolution [OF hook_test_heap_wf hook_test_heap_reads(6)
      hook_test_heap_reads(1) hook_test_heap_reads(4) ok]
  have "fallback_map h' (JRef 2) \<noteq> adjust_resolution False (fallback_map hook_test_heap (JRef 2))"
    by auto
  with ok show ?thesis by blast
qed

text \<open>C12. On allocated arguments the hook fails only with one of three \<open>TypeError\<close>s: a nullish second argument, a nullish \<open>config\<close> on a client build, or a nullish \<open>config.resolve\<close> on a client build.\<close>

theorem webpack_errors:
  assumes wf: "wf_heap h" and c: "val_ok h config" and opts_ok: "val_ok h opts"
    and err: "webpack h config opts = Inl e"
  shows "e = DestructureNullish ''isServer'' \<or> e = ReadOfNullish ''resolve'' \<or>
         e = WriteOfNullish ''fallback''"
proof (cases "destructure_prop h opts ''isServer''")
  case (Inl e1)
  with err destructure_prop_Inl [OF opts_ok Inl] show ?thesis by (simp add: webpack_def)
next
  case (Inr s)
  note s = this
  show ?thesis
  proof (cases "get_prop h config ''resolve''")
    case (Inl e2)
    with err s get_prop_Inl [OF c Inl] show ?thesis by (auto simp: webpack_def split: if_splits)
  next
    case (Inr r)
    obtain fb h1 where ev: "eval_lit fallback_lit h = (fb, h1)" by (cases "eval_lit fallback_lit h")
    from get_prop_val_ok [OF wf c Inr] eval_grows(1) [OF ev] have "val_ok h1 r" by auto
    with err s Inr ev set_prop_Inl [of h1 r "''fallback''" fb e] show ?thesis
      by (auto simp: webpack_def split: if_splits sum.splits)
  qed
qed

lemma webpack_errors_witness:
  "webpack hook_test_heap (JRef 2) JUndef = Inl (DestructureNullish ''isServer'')"
proof -
  have ok: "val_ok hook_test_heap (JRef 2)" "val_ok hook_test_heap JUndef"
    by (simp_all add: hook_test_heap_def)
  have err: "webpack hook_test_heap (JRef 2) JUndef = Inl (DestructureNullish ''isServer'')"
    by (simp add: webpack_def destructure_prop_def)
  from webpack_errors [OF hook_test_heap_wf ok err] err show ?thesis by simp
qed

text \<open>C13. On a client build whose \<open>config.resolve\<close> is \<open>undefined\<close> or \<open>null\<close>, the hook throws \<open>TypeError\<close> (cannot set \<open>fallback\<close>).\<close>

theorem webpack_throws_without_resolve:
  assumes s: "destructure_prop h opts ''isServer'' = Inr s" and ns: "\<not> truthy s"
    and r: "get_prop h config ''resolve'' = Inr r" and nullish: "r = JUndef \<or> r = JNull"
  shows "webpack h config opts = Inl (WriteOfNullish ''fallback'')"
  using s ns r nullish by (auto simp: webpack_def split: prod.splits)

lemma webpack_throws_without_resolve_witness:
  "webpack hook_test_heap (JRef 7) (JRef 3) = Inl (WriteOfNullish ''fallback'')"
  using webpack_throws_without_resolve [OF hook_test_heap_reads(1) _ hook_test_heap_reads(5)]
  by simp

text \<open>C14. A successful call of the hook keeps the heap well formed and returns the very \<open>config\<close> value it was given.\<close>

theorem webpack_wf:
  assumes wf: "wf_heap h" and c: "val_ok h config"
    and ok: "webpack h config opts = Inr (v, h')"
  shows "wf_heap h' \<and> v = config \<and> val_ok h' v"
proof (cases "\<exists>s. destructure_prop h opts ''isServer'' = Inr s \<and> \<not> truthy s")
  case True
  then obtain s where s: "destructure_prop h opts ''isServer'' = Inr s" and ns: "\<not> truthy s" by blast
  from ok s ns obtain r where r: "get_prop h config ''resolve'' = Inr r"
    by (auto simp: webpack_def split: sum.splits)
  obtain fb h1 where ev: "eval_lit fallback_lit h = (fb, h1)" by (cases "eval_lit fallback_lit h")
  from ok s ns r ev have set: "set_prop h1 r ''fallback'' fb = Inr h'" and v: "v = config"
    by (auto simp: webpack_def split: sum.splits)
  from eval_wf(1) [OF ev wf] have wf1: "wf_heap h1" and fb: "val_ok h1 fb" by auto
  from set_prop_wf [OF wf1 fb set] have "wf_heap h'" .
  moreover have "val_ok h1 config" using c eval_grows(1) [OF ev] by auto
  then have "val_ok h' config" by (simp add: val_ok_length_eq [OF set_prop_length [OF set]])
  ultimately show ?thesis using v by simp
next
  case False
  with ok have "h' = h \<and> v = config" by (auto simp: webpack_def split: sum.splits if_splits)
  with wf c show ?thesis by simp
qed

lemma webpack_wf_witness:
  "\<exists>h'. webpack hook_test_heap (JRef 2) (JRef 3) = Inr (JRef 2, h') \<and> wf_heap h'"
proof -
  obtain h' where ok: "webpack hook_test_heap (JRef 2) (JRef 3) = Inr (JRef 2, h')"
    using hook_test_client by blast
  from webpack_wf [OF hook_test_heap_wf hook_test_heap_reads(6) ok] ok show ?thesis by blast
qed

text \<open>C16. The hook depends on \<open>isServer\<close> only through its truthiness: options without \<open>isServer\<close> behave as \<open>isServer: false\<close>.\<close>

theorem webpack_truthiness:
  assumes "destructure_prop h o1 ''isServer'' = Inr s1"
    and "destructure_prop h o2 ''isServer'' = Inr s2" and "truthy s1 = truthy s2"
  shows "webpack h config o1 = webpack h config o2"
  using assms by (simp add: webpack_def)

lemma webpack_truthiness_witness:
  "webpack hook_test_heap (JRef 2) (JRef 5) = webpack hook_test_heap (JRef 2) (JRef 3)"
  by (rule webpack_truthiness [OF hook_test_heap_reads(3) hook_test_heap_reads(1)]) simp

text \<open>C15. The hook mutates \<open>config.resolve\<close> in place: every other reference to that object still reaches it, and through it sees the new fallback object.\<close>

theorem webpack_mutates_shared_resolve:
  assumes wf: "wf_heap h" and c: "val_ok h config"
    and s: "destructure_prop h opts ''isServer'' = Inr s" and ns: "\<not> truthy s"
    and r: "get_prop h config ''resolve'' = Inr (JRef r)"
    and ok: "webpack h config opts = Inr (v, h')"
    and al: "get_prop h x p = Inr (JRef r)" and x: "val_ok h x"
    and xp: "(x, p) \<noteq> (JRef r, ''fallback'')"
  shows "v = config \<and> get_prop h' x p = Inr (JRef r) \<and>
         get_prop h' (JRef r) ''fallback'' = Inr (JRef (length h)) \<and> h' ! length h = fallback_obj"
proof -
  note rd = webpack_client_reads [OF wf c r]
  from webpack_client [OF s ns r rd(1)] ok
  have "v = config \<and> h' = (h @ [fallback_obj])[r := (h ! r)\<lparr>props := AList.update ''fallback'' (JRef (length h)) (props (h ! r))\<rparr>]"
    by simp
  with rd(2) [OF x xp] rd(3,5) al show ?thesis by simp
qed

lemma webpack_mutates_shared_resolve_witness:
  "\<exists>h'. webpack hook_test_heap (JRef 2) (JRef 3) = Inr (JRef 2, h') \<and>
      get_prop h' (JRef 6) ''shared'' = Inr (JRef 1) \<and>
      get_prop h' (JRef 1) ''fallback'' = Inr (JRef (length hook_test_heap)) \<and>
      h' ! length hook_test_heap = fallback_obj"
proof -
  obtain h' where ok: "webpack hook_test_heap (JRef 2) (JRef 3) = Inr (JRef 2, h')"
    using hook_test_client by blast
  have al: "get_prop hook_test_heap (JRef 6) ''shared'' = Inr (JRef 1)"
    and x: "val_ok hook_test_heap (JRef 6)" by (simp_all add: hook_test_heap_def)
  from webpack_mutates_shared_resolve [OF hook_test_heap_wf hook_test_heap_reads(6)
      hook_test_heap_reads(1) _ hook_test_heap_reads(4) ok al x] ok
  show ?thesis by simp
qed

section \<open>Idempotence\<close>

text \<open>C8. Frame of the hook: a successful call changes no property of any object that
  existed before it, except \<open>fallback\<close> of the object in \<open>config.resolve\<close>. In
  particular \<open>config.resolve\<close> itself, every other entry of \<open>config\<close> and of the
  resolve object, and the old fallback table read as before.\<close>

theorem webpack_frame:
  assumes ok: "webpack h config opts = Inr (v, h')" and x: "val_ok h x"
  shows "get_prop h' x k = get_prop h x k \<or>
         (k = ''fallback'' \<and> get_prop h config ''resolve'' = Inr x)"
proof -
  from webpack_Inr [OF ok] obtain s where
    srv: "truthy s \<longrightarrow> h' = h" and
    cli: "\<not> truthy s \<longrightarrow> (\<exists>r. get_prop h config ''resolve'' = Inr r \<and>
       set_prop (h @ [fallback_obj]) r ''fallback'' (JRef (length h)) = Inr h')"
    by blast
  show ?thesis
  proof (cases "truthy s")
    case False
    with cli obtain r where r: "get_prop h config ''resolve'' = Inr r"
      and set: "set_prop (h @ [fallback_obj]) r ''fallback'' (JRef (length h)) = Inr h'" by blast
    show ?thesis
    proof (cases "(x, k) = (r, ''fallback'')")
      case False
      from get_set_prop_other [OF set False] x show ?thesis by (simp add: get_prop_append)
    qed (use r in simp)
  qed (use srv in simp)
qed

lemma webpack_frame_witness:
  "\<exists>h'. webpack hook_test_heap (JRef 2) (JRef 3) = Inr (JRef 2, h') \<and>
     get_prop h' (JRef 2) ''resolve'' = Inr (JRef 1) \<and>
     get_prop h' (JRef 6) ''shared'' = Inr (JRef 1) \<and>
     get_prop h' (JRef 0) ''other'' = Inr (JBool True)"
proof -
  obtain h' where ok: "webpack hook_test_heap (JRef 2) (JRef 3) = Inr (JRef 2, h')"
    using hook_test_client by blast
  have "get_prop h' (JRef 2) ''resolve'' = Inr (JRef 1)"
    using webpack_frame [OF ok, of "JRef 2" "''resolve''"] by (simp add: hook_test_heap_def)
  moreover have "get_prop h' (JRef 6) ''shared'' = Inr (JRef 1)"
    using webpack_frame [OF ok, of "JRef 6" "''shared''"] by (simp add: hook_test_heap_def)
  moreover have "get_prop h' (JRef 0) ''other'' = Inr (JBool True)"
    using webpack_frame [OF ok, of "JRef 0" "''other''"] by (simp add: hook_test_heap_def)
  ultimately show ?thesis using ok by blast
qed

lemma destructure_prop_obj: "destructure_prop h (JRef a) k = get_prop h (JRef a) k"
  by (simp add: destructure_prop_def)

lemma webpack_client_again:
  assumes wf: "wf_heap h" and c: "val_ok h config" and opts_ok: "val_ok h opts"
    and s: "destructure_prop h opts ''isServer'' = Inr s" and ns: "\<not> truthy s"
    and r: "get_prop h config ''resolve'' = Inr (JRef r)"
  defines "h1 \<equiv> (h @ [fallback_obj])[r := (h ! r)\<lparr>props := AList.update ''fallback'' (JRef (length h)) (props (h ! r))\<rparr>]"
  shows "webpack h1 config opts =
    Inr (config, (h1 @ [fallback_obj])[r := (h1 ! r)\<lparr>props := AList.update ''fallback'' (JRef (length h1)) (props (h1 ! r))\<rparr>])"
proof -
  note rd = webpack_client_reads [OF wf c r]
  have s1: "destructure_prop h1 opts ''isServer'' = Inr s"
  proof (cases opts)
    case (JRef a)
    with rd(2) [OF opts_ok] s show ?thesis by (simp add: h1_def destructure_prop_obj)
  qed (use s in \<open>auto simp: destructure_prop_def h1_def\<close>)
  have r1: "get_prop h1 config ''resolve'' = Inr (JRef r)"
    using rd(2) [OF c] r by (simp add: h1_def)
  have "r < length h1" using rd(1) by (simp add: h1_def)
  from webpack_client [OF s1 ns r1 this] show ?thesis .
qed

lemma webpack_client_len:
  "webpack h config opts = Inr (v, h') \<Longrightarrow> length h \<le> length h'"
  by (auto simp: webpack_def fallback_lit_def obj_of_fields_def set_prop_length
      split: sum.splits if_splits dest!: set_prop_length)

lemma webpack_client_prim:
  assumes s: "destructure_prop h opts ''isServer'' = Inr s" and ns: "\<not> truthy s"
    and r: "get_prop h config ''resolve'' = Inr r"
    and prim: "r \<noteq> JUndef" "r \<noteq> JNull" "\<forall>a. r \<noteq> JRef a"
  shows "webpack h config opts = Inr (config, h @ [fallback_obj])"
  using s ns r prim
  by (cases r) (simp_all add: webpack_def fallback_lit_def fallback_obj_def obj_of_fields_def)

lemma webpack_client_heap_wf:
  assumes wf: "wf_heap h" and rl: "r < length h"
  shows "wf_heap ((h @ [fallback_obj])[r := (h ! r)\<lparr>props := AList.update ''fallback'' (JRef (length h)) (props (h ! r))\<rparr>])"
proof -
  have wf1: "wf_heap (h @ [fallback_obj])"
    using wf by (rule wf_heap_alloc) (simp add: obj_ok_def fallback_obj_def)
  have "set_prop (h @ [fallback_obj]) (JRef r) ''fallback'' (JRef (length h)) =
      Inr ((h @ [fallback_obj])[r := (h ! r)\<lparr>props := AList.update ''fallback'' (JRef (length h)) (props (h ! r))\<rparr>])"
    using rl by (simp add: nth_append)
  from set_prop_wf [OF wf1 _ this] show ?thesis by simp
qed

lemma webpack_twice_sim:
  assumes wf: "wf_heap h" and rl: "r < length h"
    and h1_def: "h1 = (h @ [fallback_obj])[r := (h ! r)\<lparr>props := AList.update ''fallback'' (JRef (length h)) (props (h ! r))\<rparr>]"
    and h2_def: "h2 = (h1 @ [fallback_obj])[r := (h1 ! r)\<lparr>props := AList.update ''fallback'' (JRef (length h1)) (props (h1 ! r))\<rparr>]"
    and R_def: "R = {(a, a) | a. a < length h1} \<union> {(length h1, length h)}"
  shows "heap_sim R h2 h1"
proof (rule heap_simI)
  have len1: "length h1 = Suc (length h)" and len2: "length h2 = Suc (length h1)"
    by (simp_all add: h1_def h2_def)
  have wf1: "wf_heap h1" unfolding h1_def using wf rl by (rule webpack_client_heap_wf)
  have self: "\<And>x. val_ok h1 x \<Longrightarrow> val_rel R x x"
    by (auto simp: val_rel_def R_def split: js_val.splits)
  have fb: "h1 ! length h = fallback_obj" "h2 ! length h1 = fallback_obj"
    using rl by (simp_all add: h1_def h2_def len1 nth_append)
  fix a b assume ab: "(a, b) \<in> R"
  let ?Q = "\<lambda>p q. fst p = fst q \<and> val_rel R (snd p) (snd q)"
  show "a < length h2 \<and> b < length h1 \<and> kind (h2 ! a) = kind (h1 ! b) \<and>
      list_all2 ?Q (props (h2 ! a)) (props (h1 ! b))"
  proof (cases "(a, b) = (length h1, length h)")
    case True
    with fb len1 len2 show ?thesis
      by (auto simp: fallback_obj_def val_rel_def list_all2_same)
  next
    case False
    with ab have b: "b = a" and a: "a < length h1" by (auto simp: R_def)
    show ?thesis
    proof (cases "a = r")
      case True
      have "\<forall>p \<in> set (props (h ! r)). ?Q p p"
      proof
        fix p assume "p \<in> set (props (h ! r))"
        from wf_heapD [OF wf rl this] len1 have "val_ok h1 (snd p)" by (simp add: val_ok_mono)
        then show "?Q p p" by (simp add: self)
      qed
      moreover have "?Q (''fallback'', JRef (length h1)) (''fallback'', JRef (length h))"
        by (simp add: val_rel_def R_def)
      ultimately have "list_all2 ?Q (AList.update ''fallback'' (JRef (length h1)) (props (h ! r)))
          (AList.update ''fallback'' (JRef (length h)) (props (h ! r)))"
        by (rule list_all2_alist_update [rotated])
      with True b a len1 rl show ?thesis by (simp add: h1_def h2_def nth_append)
    next
      case False
      then have eq: "h2 ! a = h1 ! a" using a by (simp add: h2_def nth_append)
      have "\<forall>p \<in> set (props (h1 ! a)). ?Q p p"
        using wf_heapD [OF wf1 a] self by blast
      with eq b a len2 show ?thesis by (simp add: list_all2_same)
    qed
  qed
qed

text \<open>A second client call, when \<open>config.resolve\<close> is an object: it installs a second
  table object, equal to the first, and no read from the first result can tell.\<close>

lemma webpack_again_ref:
  assumes wf: "wf_heap h" and c: "val_ok h config" and opts_ok: "val_ok h opts"
    and s: "destructure_prop h opts ''isServer'' = Inr s" and ns: "\<not> truthy s"
    and r: "get_prop h config ''resolve'' = Inr (JRef a)"
    and ok: "webpack h config opts = Inr (v, h1)"
  shows "\<exists>h2. webpack h1 config opts = Inr (v, h2) \<and>
           (\<forall>n x. val_ok h1 x \<longrightarrow> deep_read n h2 x = deep_read n h1 x)"
proof -
  note rd = webpack_client_reads [OF wf c r]
  let ?h1 = "(h @ [fallback_obj])[a := (h ! a)\<lparr>props := AList.update ''fallback'' (JRef (length h)) (props (h ! a))\<rparr>]"
  let ?h2 = "(?h1 @ [fallback_obj])[a := (?h1 ! a)\<lparr>props := AList.update ''fallback'' (JRef (length ?h1)) (props (?h1 ! a))\<rparr>]"
  let ?R = "{(b, b) | b. b < length ?h1} \<union> {(length ?h1, length h)}"
  from webpack_client [OF s ns r rd(1)] ok have h1: "h1 = ?h1" and v: "v = config"
    by simp_all
  have again: "webpack ?h1 config opts = Inr (config, ?h2)"
    using wf c opts_ok s ns r by (rule webpack_client_again)
  have sim: "heap_sim ?R ?h2 ?h1"
    using wf rd(1) refl refl refl by (rule webpack_twice_sim)
  have "deep_read n ?h2 x = deep_read n ?h1 x" if "val_ok ?h1 x" for n x
  proof -
    from that have "val_rel ?R x x" by (auto simp: val_rel_def split: js_val.splits)
    with sim show ?thesis by (rule deep_read_sim)
  qed
  with again h1 v show ?thesis by blast
qed

text \<open>A second client call, when \<open>config.resolve\<close> is a primitive: both calls only
  allocate an unreachable table.\<close>

lemma webpack_again_prim:
  assumes wf: "wf_heap h" and c: "val_ok h config" and opts_ok: "val_ok h opts"
    and s: "destructure_prop h opts ''isServer'' = Inr s" and ns: "\<not> truthy s"
    and r: "get_prop h config ''resolve'' = Inr r"
    and nn: "r \<noteq> JUndef" "r \<noteq> JNull" and nr: "\<forall>a. r \<noteq> JRef a"
    and ok: "webpack h config opts = Inr (v, h1)"
  shows "\<exists>h2. webpack h1 config opts = Inr (v, h2) \<and>
           (\<forall>n x. val_ok h1 x \<longrightarrow> deep_read n h2 x = deep_read n h1 x)"
proof -
  from webpack_client_prim [OF s ns r nn nr] ok
  have h1: "h1 = h @ [fallback_obj]" and v: "v = config" by simp_all
  have "destructure_prop h1 opts ''isServer'' = Inr s"
    using s opts_ok h1 by (cases opts) (simp_all add: destructure_prop_def get_prop_append)
  moreover have "get_prop h1 config ''resolve'' = Inr r"
    using r c h1 by (simp add: get_prop_append)
  ultimately have again: "webpack h1 config opts = Inr (config, h1 @ [fallback_obj])"
    using webpack_client_prim [OF _ ns _ nn nr] by blast
  have wf1: "wf_heap h1"
    using wf h1 by (simp add: wf_heap_alloc obj_ok_def fallback_obj_def)
  have "\<forall>n x. val_ok h1 x \<longrightarrow> deep_read n (h1 @ [fallback_obj]) x = deep_read n h1 x"
    using wf1 by (simp add: deep_read_append)
  with again v show ?thesis by blast
qed

text \<open>C11. The hook is idempotent (section 3 of the specification): called a second time on
  the configuration it returned, it succeeds again with the same result value, and no read
  from any value of the first result heap can tell the second result heap from it.\<close>

theorem webpack_idempotent:
  assumes wf: "wf_heap h" and c: "val_ok h config" and opts_ok: "val_ok h opts"
    and ok: "webpack h config opts = Inr (v, h1)"
  shows "\<exists>h2. webpack h1 config opts = Inr (v, h2) \<and>
           (\<forall>n x. val_ok h1 x \<longrightarrow> deep_read n h2 x = deep_read n h1 x)"
proof (cases "destructure_prop h opts ''isServer''")
  case (Inl e)
  with ok show ?thesis by (simp add: webpack_def)
next
  case (Inr s)
  show ?thesis
  proof (cases "truthy s")
    case True
    with webpack_server [OF Inr] ok have "h1 = h" and "v = config" by simp_all
    with webpack_server [OF Inr True] show ?thesis by auto
  next
    case False
    from ok Inr False obtain r where r: "get_prop h config ''resolve'' = Inr r"
      by (auto simp: webpack_def split: sum.splits)
    show ?thesis
    proof (cases "\<exists>a. r = JRef a")
      case True
      with webpack_again_ref [OF wf c opts_ok Inr False _ ok] r show ?thesis by blast
    next
      case nr: False
      with ok Inr False r have "r \<noteq> JUndef" "r \<noteq> JNull"
        by (auto simp: webpack_def split: prod.splits)
      with webpack_again_prim [OF wf c opts_ok Inr False r _ _ _ ok] nr show ?thesis by blast
    qed
  qed
qed

lemma webpack_idempotent_witness:
  "\<exists>h1 h2. webpack hook_test_heap (JRef 2) (JRef 3) = Inr (JRef 2, h1) \<and>
     webpack h1 (JRef 2) (JRef 3) = Inr (JRef 2, h2) \<and>
     deep_read 3 h2 (JRef 2) = deep_read 3 h1 (JRef 2)"
proof -
  obtain h1 where ok: "webpack hook_test_heap (JRef 2) (JRef 3) = Inr (JRef 2, h1)"
    using hook_test_client by blast
  have opts_ok: "val_ok hook_test_heap (JRef 3)" by (simp add: hook_test_heap_def)
  have "val_ok h1 (JRef 2)"
    using ok hook_test_heap_reads(6) hook_test_heap_wf by (auto dest: webpack_client_len)
  with webpack_idempotent [OF hook_test_heap_wf hook_test_heap_reads(6) opts_ok ok] ok
  show ?thesis by blast
qed

end
