(* ===== verification/NextHost.thy ===== *)
theory NextHost
  imports WebpackHook
begin

text \<open>
  The build tool's side of the interface (section 6 of the specification). It is not code
  of this repository, so it is modelled from the specification's words, and only as far
  as the configuration module meets it:
  \<^item> a bundling pass (\<open>run_webpack_pass\<close>) reads \<open>webpack\<close> from the exported
    configuration object and, when it is a function, calls it with the pass's bundler
    configuration and a fresh options object \<open>{isServer}\<close>; a pass fails when the
    hook returns no configuration;
  \<^item> a build (\<open>next_build\<close>) runs a server pass and then a client pass, each on its own
    bundler configuration.
  A \<open>webpack\<close> entry that is not a function (absent, \<open>null\<close>, or any other value) is
  skipped and the pass keeps its bundler configuration, as the host tests
  \<open>typeof config.webpack === 'function'\<close> before calling it.
\<close>

datatype host_error = JsError js_error | WebpackConfigUndefined

definition run_webpack_pass ::
  "heap \<Rightarrow> js_val \<Rightarrow> js_val \<Rightarrow> bool \<Rightarrow> host_error + (js_val \<times> heap)" where
  "run_webpack_pass h cfg wcfg is_server =
     (case get_prop h cfg ''webpack'' of
        Inl e \<Rightarrow> Inl (JsError e)
      | Inr (JRef w) \<Rightarrow>
          (if w < length h then
             (case kind (h ! w) of
                Closure f \<Rightarrow>
                  (let (opts, h1) = eval_lit (LObj [(''isServer'', LBool is_server)]) h
                   in case call_closure f h1 wcfg opts of
                        Inl e \<Rightarrow> Inl (JsError e)
                      | Inr (v, h2) \<Rightarrow>
                          (if truthy v then Inr (v, h2) else Inl WebpackConfigUndefined))
              | _ \<Rightarrow> Inr (wcfg, h))
           else Inl (JsError (Dangling w)))
      | Inr _ \<Rightarrow> Inr (wcfg, h))"

definition next_build :: "heap \<Rightarrow> js_val \<Rightarrow> js_val \<Rightarrow> js_val \<Rightarrow> host_error + heap" where
  "next_build h cfg server_wcfg client_wcfg =
     (case run_webpack_pass h cfg server_wcfg True of
        Inl e \<Rightarrow> Inl e
      | Inr (_, h1) \<Rightarrow>
          (case run_webpack_pass h1 cfg client_wcfg False of
             Inl e \<Rightarrow> Inl e
           | Inr (_, h2) \<Rightarrow> Inr h2))"

text \<open>The options object a pass allocates.\<close>

definition pass_opts :: "bool \<Rightarrow> js_obj" where
  "pass_opts b = \<lparr>kind = Ordinary, props = [(''isServer'', JBool b)]\<rparr>"

section \<open>What a pass finds in the loaded module\<close>

lemma deep_read_tree_get:
  assumes "deep_read (Suc n) h v = t" and "tree_get key t = Some t'"
  shows "\<exists>x. get_prop h v key = Inr x \<and> deep_read n h x = t'"
proof (cases t)
  case (TObj k ps)
  with assms show ?thesis by (simp add: deep_read_get_prop)
qed (use assms in simp_all)

lemma nextConfig_webpack_tree:
  "tree_get ''webpack'' (cut_tree 2 (lit_tree nextConfig)) = Some (TObj (Closure ''webpack'') [])"
  by code_simp

text \<open>A value that reads as the configuration holds the hook's closure in \<open>webpack\<close>.\<close>

lemma config_hook_of_read:
  assumes "deep_read 2 h cfg = cut_tree 2 (lit_tree nextConfig)"
  shows "\<exists>w. get_prop h cfg ''webpack'' = Inr (JRef w) \<and> w < length h \<and>
           kind (h ! w) = Closure ''webpack''"
proof -
  from assms have "deep_read (Suc 1) h cfg = cut_tree 2 (lit_tree nextConfig)"
    by (simp add: numeral_2_eq_2)
  from deep_read_tree_get [OF this nextConfig_webpack_tree] obtain x
    where get: "get_prop h cfg ''webpack'' = Inr x"
      and rd: "deep_read (Suc 0) h x = TObj (Closure ''webpack'') []" by auto
  from deep_read_Suc_obj [OF rd] get show ?thesis by auto
qed

text \<open>After loading, \<open>nextConfig.webpack\<close> is the closure of the hook.\<close>

lemma loaded_webpack_closure:
  assumes wf: "wf_heap h" and m: "val_ok h m"
    and load: "load_next_config h m = Inr (cfg, h1)"
  shows "\<exists>w. get_prop h1 cfg ''webpack'' = Inr (JRef w) \<and> w < length h1 \<and>
           kind (h1 ! w) = Closure ''webpack''"
  using exported_config_reads [OF wf m load] by (rule config_hook_of_read)

lemma loaded_heap_wf:
  assumes "wf_heap h" and "val_ok h m" and "load_next_config h m = Inr (cfg, h1)"
  shows "wf_heap h1 \<and> val_ok h1 cfg"
proof -
  from load_next_config_Inr [OF assms(3)] obtain h0 where ev: "eval_lit nextConfig h = (cfg, h0)"
    and set: "set_prop h0 m ''exports'' cfg = Inr h1" by blast
  from eval_wf(1) [OF ev assms(1)] have wf0: "wf_heap h0" and v: "val_ok h0 cfg" by auto
  from set_prop_wf [OF wf0 v set] v show ?thesis
    by (simp add: val_ok_length_eq [OF set_prop_length [OF set]])
qed

text \<open>A pass over the loaded module runs the hook on the pass's configuration, also after
  any allocation that followed the load (an earlier pass's options object, say).\<close>

lemma run_webpack_pass_hook:
  assumes get: "get_prop h1 cfg ''webpack'' = Inr (JRef w)" and w: "w < length h1"
    and k: "kind (h1 ! w) = Closure ''webpack''"
  shows "run_webpack_pass h1 cfg wcfg b =
     (case webpack (h1 @ [pass_opts b]) wcfg (JRef (length h1)) of
        Inl e \<Rightarrow> Inl (JsError e)
      | Inr (v, h2) \<Rightarrow> (if truthy v then Inr (v, h2) else Inl WebpackConfigUndefined))"
  using get w k
  by (simp add: run_webpack_pass_def call_closure_def pass_opts_def obj_of_fields_def)

lemma run_webpack_pass_after_load:
  assumes wf: "wf_heap h" and m: "val_ok h m"
    and load: "load_next_config h m = Inr (cfg, h1)"
  shows "run_webpack_pass (h1 @ xs) cfg wcfg b =
     (case webpack (h1 @ xs @ [pass_opts b]) wcfg (JRef (length h1 + length xs)) of
        Inl e \<Rightarrow> Inl (JsError e)
      | Inr (v, h2) \<Rightarrow> (if truthy v then Inr (v, h2) else Inl WebpackConfigUndefined))"
proof -
  from loaded_webpack_closure [OF wf m load] obtain w
    where get: "get_prop h1 cfg ''webpack'' = Inr (JRef w)" and w: "w < length h1"
      and k: "kind (h1 ! w) = Closure ''webpack''" by blast
  have cfg: "val_ok h1 cfg" using loaded_heap_wf [OF wf m load] by simp
  have "get_prop (h1 @ xs) cfg ''webpack'' = Inr (JRef w)"
    using get cfg by (simp add: get_prop_append)
  moreover have "kind ((h1 @ xs) ! w) = Closure ''webpack''" using k w by (simp add: nth_append)
  ultimately show ?thesis using w by (simp add: run_webpack_pass_hook)
qed

lemma run_webpack_pass_calls_hook:
  assumes wf: "wf_heap h" and m: "val_ok h m"
    and load: "load_next_config h m = Inr (cfg, h1)"
  shows "run_webpack_pass h1 cfg wcfg b =
     (case webpack (h1 @ [pass_opts b]) wcfg (JRef (length h1)) of
        Inl e \<Rightarrow> Inl (JsError e)
      | Inr (v, h2) \<Rightarrow> (if truthy v then Inr (v, h2) else Inl WebpackConfigUndefined))"
  using run_webpack_pass_after_load [OF wf m load, of "[]"] by simp

lemma pass_opts_isServer:
  "destructure_prop (h @ [pass_opts b]) (JRef (length h)) ''isServer'' = Inr (JBool b)"
  by (simp add: destructure_prop_def pass_opts_def)

text \<open>The shape of every successful pass, once the hook is in place.\<close>

lemma run_webpack_pass_Inr:
  assumes get: "get_prop h cfg ''webpack'' = Inr (JRef f)" and f: "f < length h"
    and k: "kind (h ! f) = Closure ''webpack''" and w: "val_ok h w"
    and ok: "run_webpack_pass h cfg w b = Inr (v, h')"
  shows "v = w \<and> truthy w \<and> (b \<longrightarrow> h' = h @ [pass_opts True]) \<and>
     (\<not> b \<longrightarrow> (\<exists>r. get_prop h w ''resolve'' = Inr r \<and>
        set_prop (h @ [pass_opts False, fallback_obj]) r ''fallback'' (JRef (Suc (length h))) = Inr h'))"
proof -
  from ok run_webpack_pass_hook [OF get f k, of w b] obtain v1 h1
    where hook: "webpack (h @ [pass_opts b]) w (JRef (length h)) = Inr (v1, h1)"
      and t: "truthy v1" and vh: "(v, h') = (v1, h1)"
    by (auto split: sum.splits if_splits)
  from webpack_Inr [OF hook] pass_opts_isServer [of h b] obtain r
    where "v1 = w" and "b \<longrightarrow> h1 = h @ [pass_opts b]"
      and "\<not> b \<longrightarrow> get_prop (h @ [pass_opts b]) w ''resolve'' = Inr r \<and>
        set_prop ((h @ [pass_opts b]) @ [fallback_obj]) r ''fallback'' (JRef (length (h @ [pass_opts b]))) = Inr h1"
    by auto
  with vh t w show ?thesis by (auto simp: get_prop_append)
qed

end
