(* ===== verification/BuildLifecycle.thy ===== *)
theory BuildLifecycle
  imports NextHost
begin

text \<open>
  The life of one build of the host, as a step relation on an explicit state. The host is
  not code of this repository, so it is modelled from the specification (sections 5 and
  6): the configuration is constructed once at load time and immutable thereafter, and the
  hook is invoked once per bundling pass. A build state (\<open>build_state\<close>) holds:
  \<^item> the phase: \<open>Init\<close>, \<open>Loaded\<close>, \<open>Done\<close>, or \<open>Failed\<close> with the error;
  \<^item> the heap;
  \<^item> Node's \<open>module\<close> object;
  \<^item> the exported configuration;
  \<^item> the passes still to run, each a bundler configuration with its \<open>isServer\<close> flag.

  \<open>build_step\<close> loads the module (\<open>load_next_config\<close>), runs the pending passes one by
  one (\<open>run_webpack_pass\<close>), and finishes when none is left. Every error ends the run in
  \<open>Failed\<close>. The bundler configurations of the passes are objects of the start heap
  (\<open>init_ok\<close>), allocated before the module is loaded; the host creates them after the
  load. Addresses are not observable and no bundler configuration refers to the exported
  object, so the order changes no read. Proved here:
  \<^item> a build whose passes can run reaches \<open>Done\<close> (\<open>build_reaches_done\<close>);
  \<^item> at \<open>Done\<close>, every client pass's bundler configuration has the table
    \<open>{fs: false, path: false}\<close> (\<open>build_done_client_tables\<close>). Two invariants
    show this, by rule induction: the configuration's objects form a closed region above
    every bundler object that the passes leave intact, and the passes already run form a
    prefix of the list, each client pass among them with its table, an object above the
    configuration's base that no later pass modifies.
\<close>

section \<open>States and steps\<close>

datatype build_phase = Init | Loaded | Done | Failed host_error

record build_state =
  phase :: build_phase
  bheap :: heap
  module_obj :: js_val
  exported :: js_val
  pending :: "(js_val \<times> bool) list"

inductive build_step :: "build_state \<Rightarrow> build_state \<Rightarrow> bool" where
  load: "phase s = Init \<Longrightarrow> load_next_config (bheap s) (module_obj s) = Inr (cfg, h) \<Longrightarrow>
     build_step s (s\<lparr>phase := Loaded, bheap := h, exported := cfg\<rparr>)"
| load_error: "phase s = Init \<Longrightarrow> load_next_config (bheap s) (module_obj s) = Inl e \<Longrightarrow>
     build_step s (s\<lparr>phase := Failed (JsError e)\<rparr>)"
| pass: "phase s = Loaded \<Longrightarrow> pending s = (w, b) # ps \<Longrightarrow>
     run_webpack_pass (bheap s) (exported s) w b = Inr (v, h) \<Longrightarrow>
     build_step s (s\<lparr>bheap := h, pending := ps\<rparr>)"
| pass_error: "phase s = Loaded \<Longrightarrow> pending s = (w, b) # ps \<Longrightarrow>
     run_webpack_pass (bheap s) (exported s) w b = Inl e \<Longrightarrow>
     build_step s (s\<lparr>phase := Failed e\<rparr>)"
| finish: "phase s = Loaded \<Longrightarrow> pending s = [] \<Longrightarrow> build_step s (s\<lparr>phase := Done\<rparr>)"

code_pred build_step .

section \<open>Invariants and a test build\<close>

text \<open>The invariant of a loaded build: the configuration's objects form a closed region
  from \<open>lo\<close> on, and they read as the literal. Each pending pass's bundler
  configuration lies below \<open>lo\<close>, and so does its \<open>resolve\<close> object.\<close>

definition config_intact :: "addr \<Rightarrow> heap \<Rightarrow> js_val \<Rightarrow> bool" where
  "config_intact lo h cfg =
     (wf_heap h \<and> lo \<le> length h \<and> region_closed lo h \<and> val_in lo (length h) cfg \<and>
      (\<forall>n. deep_read n h cfg = cut_tree n (lit_tree nextConfig)))"

definition pass_ready :: "addr \<Rightarrow> heap \<Rightarrow> js_val \<times> bool \<Rightarrow> bool" where
  "pass_ready lo h p =
     (val_in 0 lo (fst p) \<and>
      (case get_prop h (fst p) ''resolve'' of Inr (JRef r) \<Rightarrow> r < lo | _ \<Rightarrow> True))"

definition pass_live :: "heap \<Rightarrow> js_val \<times> bool \<Rightarrow> bool" where
  "pass_live h p =
     (truthy (fst p) \<and>
      (snd p \<or> (case get_prop h (fst p) ''resolve'' of Inr (JRef _) \<Rightarrow> True | _ \<Rightarrow> False)))"

text \<open>A client pass has done its work on \<open>w\<close> when \<open>w.resolve.fallback\<close> is a table
  \<open>{fs: false, path: false}\<close> allocated by a pass, above the region's base.\<close>

fun ref_of :: "js_error + js_val \<Rightarrow> addr option" where
  "ref_of (Inr (JRef a)) = Some a"
| "ref_of _ = None"

definition client_done :: "addr \<Rightarrow> heap \<Rightarrow> js_val \<Rightarrow> bool" where
  "client_done lo h w =
     (case ref_of (get_prop h w ''resolve'') of
        Some r \<Rightarrow>
          (case ref_of (get_prop h (JRef r) ''fallback'') of
             Some b \<Rightarrow> lo \<le> b \<and> b < length h \<and> h ! b = fallback_obj
           | None \<Rightarrow> False)
      | None \<Rightarrow> False)"

definition build_init :: "heap \<Rightarrow> js_val \<Rightarrow> (js_val \<times> bool) list \<Rightarrow> build_state" where
  "build_init h m ps = \<lparr>phase = Init, bheap = h, module_obj = m, exported = JUndef, pending = ps\<rparr>"

definition init_ok :: "heap \<Rightarrow> js_val \<Rightarrow> (js_val \<times> bool) list \<Rightarrow> bool" where
  "init_ok h m ps = (wf_heap h \<and> val_ok h m \<and> list_all (\<lambda>p. val_ok h (fst p)) ps)"

text \<open>A build as in section 6 of the specification: the module object of Node's loader, an
  existing fallback table \<open>{fs: true, other: true}\<close> at 2 held by a \<open>resolve\<close> object
  at 3, and two bundler configurations that share that \<open>resolve\<close>: the client's at 4
  and the server's at 5.\<close>

definition lifecycle_heap :: heap where
  "lifecycle_heap =
     node_module_heap @
     [\<lparr>kind = Ordinary, props = [(''fs'', JBool True), (''other'', JBool True)]\<rparr>,
      \<lparr>kind = Ordinary, props = [(''fallback'', JRef 2)]\<rparr>,
      \<lparr>kind = Ordinary, props = [(''resolve'', JRef 3)]\<rparr>,
      \<lparr>kind = Ordinary, props = [(''resolve'', JRef 3)]\<rparr>]"

definition lifecycle_passes :: "(js_val \<times> bool) list" where
  "lifecycle_passes = [(JRef 5, True), (JRef 4, False)]"

section \<open>Properties of the steps\<close>

inductive_cases build_stepE: "build_step s t"

lemma pass_frame:
  assumes wf: "wf_heap h" and lo: "lo \<le> length h"
    and get: "get_prop h cfg ''webpack'' = Inr (JRef f)" and f: "f < length h"
    and k: "kind (h ! f) = Closure ''webpack''" and w: "val_ok h w"
    and wr: "\<forall>ra. get_prop h w ''resolve'' = Inr (JRef ra) \<longrightarrow> ra < lo"
    and ok: "run_webpack_pass h cfg w b = Inr (v, h')"
  shows "\<exists>xs. length h' = length h + length xs \<and> set xs \<subseteq> {pass_opts b, fallback_obj} \<and>
           wf_heap h' \<and> (\<forall>a. lo \<le> a \<and> a < length h' \<longrightarrow> h' ! a = (h @ xs) ! a) \<and>
           (\<forall>x k. val_ok h x \<and> k \<noteq> ''fallback'' \<longrightarrow> get_prop h' x k = get_prop h x k)"
proof (cases b)
  case True
  with run_webpack_pass_Inr [OF get f k w ok] have h': "h' = h @ [pass_opts True]" by simp
  have "wf_heap h'" unfolding h' using wf by (rule wf_heap_alloc) (simp add: obj_ok_def pass_opts_def)
  with h' True show ?thesis by (intro exI [of _ "[pass_opts True]"]) (auto simp: get_prop_append)
next
  case False
  let ?g = "h @ [pass_opts False, fallback_obj]"
  from run_webpack_pass_Inr [OF get f k w ok] False obtain r
    where r: "get_prop h w ''resolve'' = Inr r"
      and set: "set_prop ?g r ''fallback'' (JRef (Suc (length h))) = Inr h'" by auto
  have wfg: "wf_heap ?g"
  proof -
    have "wf_heap (h @ [pass_opts False])"
      using wf by (rule wf_heap_alloc) (simp add: obj_ok_def pass_opts_def)
    then have "wf_heap ((h @ [pass_opts False]) @ [fallback_obj])"
      by (rule wf_heap_alloc) (simp add: obj_ok_def fallback_obj_def)
    then show ?thesis by simp
  qed
  have "wf_heap h'" using set_prop_wf [OF wfg _ set] by simp
  moreover have "length h' = length ?g" by (rule set_prop_length [OF set])
  moreover have "h' ! a = ?g ! a" if "lo \<le> a" for a
  proof -
    from wr r that have "r \<noteq> JRef a" by auto
    with set show ?thesis by (rule set_prop_other_obj)
  qed
  moreover have "get_prop h' x k = get_prop h x k" if "val_ok h x" "k \<noteq> ''fallback''" for x k
    using get_set_prop_other [OF set, of x k] that by (simp add: get_prop_append)
  ultimately show ?thesis using False
    by (intro exI [of _ "[pass_opts False, fallback_obj]"]) auto
qed

text \<open>What a pass does to a \<open>fallback\<close> property: nothing, or it points it to the
  table the pass allocated.\<close>

lemma pass_fallback:
  assumes get: "get_prop h cfg ''webpack'' = Inr (JRef f)" and f: "f < length h"
    and k: "kind (h ! f) = Closure ''webpack''" and w: "val_ok h w"
    and ok: "run_webpack_pass h cfg w b = Inr (v, h')" and x: "val_ok h x"
  shows "get_prop h' x ''fallback'' = get_prop h x ''fallback'' \<or>
    (get_prop h' x ''fallback'' = Inr (JRef (Suc (length h))) \<and> Suc (length h) < length h' \<and>
     h' ! Suc (length h) = fallback_obj)"
proof (cases b)
  case True
  with run_webpack_pass_Inr [OF get f k w ok] x show ?thesis by (simp add: get_prop_append)
next
  case False
  let ?g = "h @ [pass_opts False, fallback_obj]"
  from run_webpack_pass_Inr [OF get f k w ok] False obtain r
    where set: "set_prop ?g r ''fallback'' (JRef (Suc (length h))) = Inr h'" by auto
  have len: "length h' = Suc (Suc (length h))" using set_prop_length [OF set] by simp
  show ?thesis
  proof (cases "x = r")
    case xr: True
    show ?thesis
    proof (cases x)
      case (JRef a)
      with x have a: "a < length h" by simp
      from xr JRef have rr: "r = JRef a" by simp
      from get_set_prop_same [OF set [unfolded rr]] JRef
      have "get_prop h' x ''fallback'' = Inr (JRef (Suc (length h)))" by simp
      moreover have "h' ! Suc (length h) = ?g ! Suc (length h)"
        using set by (rule set_prop_other_obj) (use rr a in simp)
      ultimately show ?thesis using len by (simp add: nth_append)
    qed simp_all
  next
    case False
    with get_set_prop_other [OF set, of x "''fallback''"] x show ?thesis
      by (simp add: get_prop_append)
  qed
qed

lemma pass_ready_val_ok: "pass_ready lo h p \<Longrightarrow> lo \<le> length h \<Longrightarrow> val_ok h (fst p)"
  by (cases "fst p") (auto simp: pass_ready_def val_in_def)

lemma pass_keeps_intact:
  assumes ci: "config_intact lo h cfg" and pr: "pass_ready lo h (w, b)"
    and ok: "run_webpack_pass h cfg w b = Inr (v, h')"
  shows "config_intact lo h' cfg \<and> (\<forall>q. pass_ready lo h q \<longrightarrow> pass_ready lo h' q) \<and>
         (\<forall>x k. val_ok h x \<and> k \<noteq> ''fallback'' \<longrightarrow> get_prop h' x k = get_prop h x k)"
proof -
  from ci have wf: "wf_heap h" and lo: "lo \<le> length h" and closed: "region_closed lo h"
    and cfg: "val_in lo (length h) cfg" and rd: "\<And>n. deep_read n h cfg = cut_tree n (lit_tree nextConfig)"
    by (auto simp: config_intact_def)
  from config_hook_of_read [OF rd] obtain f where get: "get_prop h cfg ''webpack'' = Inr (JRef f)"
    and f: "f < length h" and k: "kind (h ! f) = Closure ''webpack''" by blast
  from pass_ready_val_ok [OF pr lo] have w: "val_ok h w" by simp
  from pr have wr: "\<forall>ra. get_prop h w ''resolve'' = Inr (JRef ra) \<longrightarrow> ra < lo"
    by (auto simp: pass_ready_def)
  from pass_frame [OF wf lo get f k w wr ok] obtain xs
    where len: "length h' = length h + length xs" and xs: "set xs \<subseteq> {pass_opts b, fallback_obj}"
      and wf': "wf_heap h'" and same: "\<forall>a. lo \<le> a \<and> a < length h' \<longrightarrow> h' ! a = (h @ xs) ! a"
      and gets: "\<forall>x k. val_ok h x \<and> k \<noteq> ''fallback'' \<longrightarrow> get_prop h' x k = get_prop h x k"
    by blast
  have old: "\<forall>a. lo \<le> a \<and> a < length h \<longrightarrow> a < length h' \<and> h' ! a = h ! a"
    using same len by (auto simp: nth_append)
  have new: "\<forall>a. length h \<le> a \<and> a < length h' \<longrightarrow>
      (\<forall>p \<in> set (props (h' ! a)). val_in lo (length h') (snd p))"
  proof (intro allI impI)
    fix a assume a: "length h \<le> a \<and> a < length h'"
    with same lo len have "h' ! a = xs ! (a - length h)" by (auto simp: nth_append)
    moreover from a len have "xs ! (a - length h) \<in> set xs" by (intro nth_mem) linarith
    ultimately have "h' ! a \<in> {pass_opts b, fallback_obj}" using xs by auto
    then show "\<forall>p \<in> set (props (h' ! a)). val_in lo (length h') (snd p)"
      by (auto simp: pass_opts_def fallback_obj_def val_in_def)
  qed
  have "region_closed lo h'"
    using closed _ _ new by (rule region_closed_frame) (use len old in auto)
  moreover have "deep_read n h' cfg = cut_tree n (lit_tree nextConfig)" for n
    using deep_read_region [OF closed cfg old] rd by simp
  moreover have "val_in lo (length h') cfg" using cfg len by (auto intro: val_in_mono)
  ultimately have "config_intact lo h' cfg" using wf' lo len by (simp add: config_intact_def)
  moreover have "pass_ready lo h' q" if q: "pass_ready lo h q" for q
    using q gets pass_ready_val_ok [OF q lo] by (simp add: pass_ready_def)
  ultimately show ?thesis using gets by blast
qed

lemma load_makes_intact:
  assumes wf: "wf_heap h" and m: "val_ok h m" and ps: "list_all (\<lambda>p. val_ok h (fst p)) ps"
    and load: "load_next_config h m = Inr (cfg, h1)"
  shows "config_intact (length h) h1 cfg \<and> list_all (pass_ready (length h) h1) ps"
proof -
  from load_next_config_Inr [OF load] obtain h0 where ev: "eval_lit nextConfig h = (cfg, h0)"
    and set: "set_prop h0 m ''exports'' cfg = Inr h1" by blast
  from eval_closed(1) [OF ev order_refl region_closed_fresh]
  have c0: "region_closed (length h) h0" and v0: "val_in (length h) (length h0) cfg" by auto
  have len1: "length h1 = length h0" by (rule set_prop_length [OF set])
  have len0: "length h \<le> length h0" using eval_grows(1) [OF ev] by auto
  have same: "\<forall>a. length h \<le> a \<and> a < length h0 \<longrightarrow> h1 ! a = h0 ! a"
    using m set by (cases m) (auto intro: set_prop_other_obj)
  have "region_closed (length h) h1"
    using c0 _ same by (rule region_closed_frame) (use len1 in auto)
  moreover from loaded_heap_wf [OF wf m load] have "wf_heap h1" by simp
  moreover note exported_config_reads [OF wf m load]
  ultimately have "config_intact (length h) h1 cfg"
    using v0 len0 len1 by (simp add: config_intact_def)
  moreover have "pass_ready (length h) h1 p" if "val_ok h (fst p)" for p
  proof -
    have "get_prop h1 (fst p) ''resolve'' = get_prop h (fst p) ''resolve''"
      using load_next_config_old_reads [OF that _ load] by simp
    moreover have "val_ok h r" if "get_prop h (fst p) ''resolve'' = Inr r" for r
      using get_prop_val_ok [OF wf \<open>val_ok h (fst p)\<close> that] .
    ultimately show ?thesis using \<open>val_ok h (fst p)\<close>
      by (cases "fst p") (auto simp: pass_ready_def val_in_def split: sum.splits js_val.splits)
  qed
  ultimately show ?thesis using ps by (simp add: list_all_iff)
qed

lemma ref_of_Some [simp]: "ref_of v = Some a \<longleftrightarrow> v = Inr (JRef a)"
  by (cases v rule: ref_of.cases) auto

lemma client_doneD:
  "client_done lo h w \<Longrightarrow> \<exists>r c. get_prop h w ''resolve'' = Inr (JRef r) \<and>
     get_prop h (JRef r) ''fallback'' = Inr (JRef c) \<and> lo \<le> c \<and> c < length h \<and> h ! c = fallback_obj"
  unfolding client_done_def by (auto split: option.splits simp del: get_prop.simps)

lemma client_doneI:
  "get_prop h w ''resolve'' = Inr (JRef r) \<Longrightarrow> get_prop h (JRef r) ''fallback'' = Inr (JRef c) \<Longrightarrow>
     lo \<le> c \<Longrightarrow> c < length h \<Longrightarrow> h ! c = fallback_obj \<Longrightarrow> client_done lo h w"
  unfolding client_done_def by (simp del: get_prop.simps)

lemma client_done_table:
  assumes "client_done lo h w"
  shows "fallback_map h w = map_of [(''fs'', JBool False), (''path'', JBool False)]"
proof -
  from client_doneD [OF assms] obtain r c where r: "get_prop h w ''resolve'' = Inr (JRef r)"
    and fb: "get_prop h (JRef r) ''fallback'' = Inr (JRef c)" and c: "c < length h" "h ! c = fallback_obj"
    by blast
  from r fb c show ?thesis by (simp add: fallback_map_def fallback_obj_def del: get_prop.simps)
qed

lemma intact_hook:
  assumes "config_intact lo h cfg"
  shows "wf_heap h \<and> lo \<le> length h \<and>
    (\<exists>f. get_prop h cfg ''webpack'' = Inr (JRef f) \<and> f < length h \<and> kind (h ! f) = Closure ''webpack'')"
proof -
  from assms have "deep_read 2 h cfg = cut_tree 2 (lit_tree nextConfig)"
    by (simp add: config_intact_def)
  from config_hook_of_read [OF this] assms show ?thesis by (simp add: config_intact_def)
qed

lemma pass_keeps_client_done:
  assumes ci: "config_intact lo h cfg" and pr: "pass_ready lo h (w, b)"
    and ok: "run_webpack_pass h cfg w b = Inr (v, h')"
    and x: "val_ok h x" and cd: "client_done lo h x"
  shows "client_done lo h' x"
proof -
  from intact_hook [OF ci] obtain f where wf: "wf_heap h" and lo: "lo \<le> length h"
    and get: "get_prop h cfg ''webpack'' = Inr (JRef f)" and f: "f < length h"
    and k: "kind (h ! f) = Closure ''webpack''" by blast
  from pass_ready_val_ok [OF pr lo] have w: "val_ok h w" by simp
  from pr have wr: "\<forall>ra. get_prop h w ''resolve'' = Inr (JRef ra) \<longrightarrow> ra < lo"
    by (auto simp: pass_ready_def)
  from client_doneD [OF cd] obtain r c where r: "get_prop h x ''resolve'' = Inr (JRef r)"
    and fb: "get_prop h (JRef r) ''fallback'' = Inr (JRef c)"
    and c: "lo \<le> c" "c < length h" "h ! c = fallback_obj"
    by blast
  from pass_frame [OF wf lo get f k w wr ok] obtain xs
    where len: "length h' = length h + length xs"
      and same: "\<forall>a. lo \<le> a \<and> a < length h' \<longrightarrow> h' ! a = (h @ xs) ! a"
      and gets: "\<forall>x k. val_ok h x \<and> k \<noteq> ''fallback'' \<longrightarrow> get_prop h' x k = get_prop h x k"
    by blast
  have r': "get_prop h' x ''resolve'' = Inr (JRef r)" using gets x r by simp
  have rv: "val_ok h (JRef r)" by (rule get_prop_val_ok [OF wf x r])
  from pass_fallback [OF get f k w ok rv] show ?thesis
  proof
    assume "get_prop h' (JRef r) ''fallback'' = get_prop h (JRef r) ''fallback''"
    moreover have "h' ! c = fallback_obj" using same c len by (simp add: nth_append)
    ultimately show ?thesis using r' fb c len by (intro client_doneI [of h' x r c]) auto
  next
    assume "get_prop h' (JRef r) ''fallback'' = Inr (JRef (Suc (length h))) \<and>
      Suc (length h) < length h' \<and> h' ! Suc (length h) = fallback_obj"
    with r' lo show ?thesis by (intro client_doneI [of h' x r "Suc (length h)"]) auto
  qed
qed

lemma pass_sets_client_done:
  assumes ci: "config_intact lo h cfg" and pr: "pass_ready lo h (w, False)"
    and live: "pass_live h (w, False)" and ok: "run_webpack_pass h cfg w False = Inr (v, h')"
  shows "client_done lo h' w"
proof -
  from intact_hook [OF ci] obtain f where wf: "wf_heap h" and lo: "lo \<le> length h"
    and get: "get_prop h cfg ''webpack'' = Inr (JRef f)" and f: "f < length h"
    and k: "kind (h ! f) = Closure ''webpack''" by blast
  from pass_ready_val_ok [OF pr lo] have w: "val_ok h w" by simp
  from live obtain r where r: "get_prop h w ''resolve'' = Inr (JRef r)"
    by (auto simp: pass_live_def split: sum.splits js_val.splits)
  let ?g = "h @ [pass_opts False, fallback_obj]"
  from run_webpack_pass_Inr [OF get f k w ok] r
  have set: "set_prop ?g (JRef r) ''fallback'' (JRef (Suc (length h))) = Inr h'" by auto
  have rl: "r < length h" using get_prop_val_ok [OF wf w r] by simp
  have "get_prop h' w ''resolve'' = Inr (JRef r)"
    using get_set_prop_other [OF set, of w "''resolve''"] r w by (simp add: get_prop_append)
  moreover have "get_prop h' (JRef r) ''fallback'' = Inr (JRef (Suc (length h)))"
    by (rule get_set_prop_same [OF set])
  moreover have "h' ! Suc (length h) = ?g ! Suc (length h)"
    using set by (rule set_prop_other_obj) (use rl in simp)
  moreover have "length h' = Suc (Suc (length h))" using set_prop_length [OF set] by simp
  ultimately show ?thesis using lo
    by (intro client_doneI [of h' w r "Suc (length h)"]) (auto simp: nth_append)
qed

lemma load_keeps_live:
  assumes ps: "list_all (\<lambda>p. val_ok h (fst p)) ps" and live: "list_all (pass_live h) ps"
    and load: "load_next_config h m = Inr (cfg, h1)"
  shows "list_all (pass_live h1) ps"
proof -
  have "pass_live h1 q" if "q \<in> set ps" for q
  proof -
    from ps that have q: "val_ok h (fst q)" by (simp add: list_all_iff)
    from load_next_config_old_reads [OF q _ load]
    have "get_prop h1 (fst q) ''resolve'' = get_prop h (fst q) ''resolve''" by simp
    with live that show ?thesis by (simp add: pass_live_def list_all_iff)
  qed
  then show ?thesis by (simp add: list_all_iff)
qed

lemma build_reach_inv:
  assumes init: "init_ok h m ps" and run: "build_step\<^sup>*\<^sup>* (build_init h m ps) s"
  shows "(phase s = Init \<longrightarrow> s = build_init h m ps) \<and>
         (phase s = Loaded \<or> phase s = Done \<longrightarrow>
            config_intact (length h) (bheap s) (exported s) \<and>
            list_all (pass_ready (length h) (bheap s)) (pending s))"
  using run
proof (induction rule: rtranclp_induct)
  case base
  show ?case by (simp add: build_init_def)
next
  case (step s t)
  from step.hyps(2) step.IH show ?case
  proof (cases rule: build_step.cases)
    case (load cfg h1)
    with step.IH have "s = build_init h m ps" by simp
    with load init load_makes_intact [of h m ps cfg h1] show ?thesis
      by (simp add: build_init_def init_ok_def)
  next
    case (pass w b ps' v h')
    with step.IH have ci: "config_intact (length h) (bheap s) (exported s)"
      and pr: "list_all (pass_ready (length h) (bheap s)) ((w, b) # ps')" by auto
    from pass_keeps_intact [OF ci _ pass(4)] pr pass show ?thesis
      by (auto simp: list_all_iff)
  qed auto
qed

text \<open>The second invariant, under live passes: the passes already run form a prefix of
  the list, every client pass among them has done its work, and the passes still pending
  can run.\<close>

lemma build_reach_tables:
  assumes init: "init_ok h m ps" and live: "list_all (pass_live h) ps"
    and run: "build_step\<^sup>*\<^sup>* (build_init h m ps) s"
  shows "(phase s = Done \<longrightarrow> pending s = []) \<and>
         (phase s = Loaded \<or> phase s = Done \<longrightarrow>
            (\<exists>pre. ps = pre @ pending s \<and>
               list_all (\<lambda>p. snd p \<or> client_done (length h) (bheap s) (fst p)) pre) \<and>
            list_all (pass_live (bheap s)) (pending s))"
  using run
proof (induction rule: rtranclp_induct)
  case base
  show ?case by (simp add: build_init_def)
next
  case (step s t)
  note inv = build_reach_inv [OF init step.hyps(1)]
  from init have wf: "wf_heap h" and m: "val_ok h m" and ps: "list_all (\<lambda>p. val_ok h (fst p)) ps"
    by (auto simp: init_ok_def)
  from step.hyps(2) step.IH show ?case
  proof (cases rule: build_step.cases)
    case (load cfg h1)
    with inv have "s = build_init h m ps" by simp
    with load load_keeps_live [OF ps live] show ?thesis by (simp add: build_init_def)
  next
    case (pass w b ps' v h')
    with inv have ci: "config_intact (length h) (bheap s) (exported s)"
      and pr: "list_all (pass_ready (length h) (bheap s)) ((w, b) # ps')" by auto
    from pass step.IH obtain pre where pre: "ps = pre @ (w, b) # ps'"
      and dn: "list_all (\<lambda>p. snd p \<or> client_done (length h) (bheap s) (fst p)) pre"
      and lv: "list_all (pass_live (bheap s)) ((w, b) # ps')" by auto
    from ci have len: "length h \<le> length (bheap s)" by (simp add: config_intact_def)
    have vok: "val_ok (bheap s) (fst p)" if "p \<in> set ps" for p
      using ps that len by (auto simp: list_all_iff intro: val_ok_mono)
    from pass_keeps_intact [OF ci _ pass(4)] pr
    have gets: "\<forall>x k. val_ok (bheap s) x \<and> k \<noteq> ''fallback'' \<longrightarrow> get_prop h' x k = get_prop (bheap s) x k"
      by simp
    have "list_all (\<lambda>p. snd p \<or> client_done (length h) h' (fst p)) (pre @ [(w, b)])"
    proof -
      have "snd p \<or> client_done (length h) h' (fst p)" if p: "p \<in> set pre" for p
      proof (cases "snd p")
        case False
        with dn p have cd: "client_done (length h) (bheap s) (fst p)" by (auto simp: list_all_iff)
        from pre p have "p \<in> set ps" by simp
        from pass_keeps_client_done [OF ci _ pass(4) vok [OF this] cd] pr show ?thesis by simp
      qed simp
      moreover have "b \<or> client_done (length h) h' w"
      proof (cases b)
        case False
        with pass(4) have "run_webpack_pass (bheap s) (exported s) w False = Inr (v, h')" by simp
        from pass_sets_client_done [OF ci _ _ this] pr lv False show ?thesis by simp
      qed simp
      ultimately show ?thesis by (simp add: list_all_iff)
    qed
    moreover have "list_all (pass_live h') ps'"
      using lv gets vok pre by (auto simp: list_all_iff pass_live_def)
    ultimately show ?thesis using pass pre by auto
  qed auto
qed

lemma pass_succeeds:
  assumes ci: "config_intact lo h cfg" and pr: "pass_ready lo h (w, b)" and live: "pass_live h (w, b)"
  shows "\<exists>v h'. run_webpack_pass h cfg w b = Inr (v, h')"
proof -
  from ci have wf: "wf_heap h" and lo: "lo \<le> length h"
    and rd: "\<And>n. deep_read n h cfg = cut_tree n (lit_tree nextConfig)"
    by (auto simp: config_intact_def)
  from config_hook_of_read [OF rd] obtain f where get: "get_prop h cfg ''webpack'' = Inr (JRef f)"
    and f: "f < length h" and k: "kind (h ! f) = Closure ''webpack''" by blast
  from pass_ready_val_ok [OF pr lo] have w: "val_ok h w" by simp
  from live have t: "truthy w" by (simp add: pass_live_def)
  have "\<exists>h2. webpack (h @ [pass_opts b]) w (JRef (length h)) = Inr (w, h2)"
  proof (cases b)
    case True
    then show ?thesis using webpack_server [OF pass_opts_isServer] by simp
  next
    case False
    with live obtain r where r: "get_prop h w ''resolve'' = Inr (JRef r)"
      by (auto simp: pass_live_def split: sum.splits js_val.splits)
    from get_prop_val_ok [OF wf w r] have "r < length (h @ [pass_opts b])" by simp
    moreover from r w have "get_prop (h @ [pass_opts b]) w ''resolve'' = Inr (JRef r)"
      by (simp add: get_prop_append)
    ultimately show ?thesis using webpack_client [OF pass_opts_isServer] False by simp
  qed
  with run_webpack_pass_hook [OF get f k, of w b] t show ?thesis by auto
qed

lemma loaded_reaches_done:
  assumes "phase s = Loaded" and "config_intact lo (bheap s) (exported s)"
    and "list_all (pass_ready lo (bheap s)) (pending s)"
    and "list_all (pass_live (bheap s)) (pending s)"
  shows "\<exists>t. build_step\<^sup>*\<^sup>* s t \<and> phase t = Done"
  using assms
proof (induction "pending s" arbitrary: s)
  case Nil
  from build_step.finish [OF Nil.prems(1) Nil.hyps [symmetric]]
  have "build_step\<^sup>*\<^sup>* s (s\<lparr>phase := Done\<rparr>)" by (rule r_into_rtranclp)
  then show ?case by (intro exI [of _ "s\<lparr>phase := Done\<rparr>"]) simp
next
  case (Cons p ps)
  obtain w b where p: "p = (w, b)" by (cases p)
  from Cons.prems Cons.hyps(2) [symmetric] p have ci: "config_intact lo (bheap s) (exported s)"
    and pr: "pass_ready lo (bheap s) (w, b)" and live: "pass_live (bheap s) (w, b)"
    and prs: "list_all (pass_ready lo (bheap s)) ps" and lives: "list_all (pass_live (bheap s)) ps"
    by auto
  from pass_succeeds [OF ci pr live] obtain v h'
    where ok: "run_webpack_pass (bheap s) (exported s) w b = Inr (v, h')" by blast
  let ?s = "s\<lparr>bheap := h', pending := ps\<rparr>"
  have step: "build_step s ?s"
    using build_step.pass [OF Cons.prems(1) _ ok] Cons.hyps(2) p by simp
  from pass_keeps_intact [OF ci pr ok] have ci': "config_intact lo h' (exported s)"
    and prs': "list_all (pass_ready lo h') ps"
    and gets: "\<forall>x k. val_ok (bheap s) x \<and> k \<noteq> ''fallback'' \<longrightarrow> get_prop h' x k = get_prop (bheap s) x k"
    using prs by (auto simp: list_all_iff)
  have lives': "list_all (pass_live h') ps"
  proof -
    have "pass_live h' q" if "q \<in> set ps" for q
    proof -
      from ci have "length (bheap s) \<ge> lo" by (simp add: config_intact_def)
      with prs that have "val_ok (bheap s) (fst q)" by (auto simp: list_all_iff intro: pass_ready_val_ok)
      with gets lives that show ?thesis by (auto simp: pass_live_def list_all_iff)
    qed
    then show ?thesis by (simp add: list_all_iff)
  qed
  from Cons.hyps(1) [of ?s] Cons.prems(1) ci' prs' lives' obtain t
    where "build_step\<^sup>*\<^sup>* ?s t" and "phase t = Done" by auto
  with step show ?case by (meson converse_rtranclp_into_rtranclp)
qed

text \<open>A pass that fails ends every run in its failure.\<close>

lemma lifecycle_heap_init: "init_ok lifecycle_heap (JRef 1) lifecycle_passes"
  by (simp add: init_ok_def lifecycle_heap_def lifecycle_passes_def node_module_heap_def
      wf_heap_def obj_ok_def)

lemma lifecycle_heap_live: "list_all (pass_live lifecycle_heap) lifecycle_passes"
  by (simp add: pass_live_def lifecycle_heap_def lifecycle_passes_def node_module_heap_def)

lemma build_reaches_done_from_init:
  assumes init: "init_ok h (JRef a) ps" and live: "list_all (pass_live h) ps"
  shows "\<exists>s. build_step\<^sup>*\<^sup>* (build_init h (JRef a) ps) s \<and> phase s = Done"
proof -
  from init have wf: "wf_heap h" and a: "a < length h" and ps: "list_all (\<lambda>p. val_ok h (fst p)) ps"
    by (auto simp: init_ok_def)
  from load_next_config_ok [OF wf a] obtain cfg h1
    where load: "load_next_config h (JRef a) = Inr (cfg, h1)" by blast
  let ?s1 = "(build_init h (JRef a) ps)\<lparr>phase := Loaded, bheap := h1, exported := cfg\<rparr>"
  have step: "build_step (build_init h (JRef a) ps) ?s1"
    using load by (intro build_step.load) (simp_all add: build_init_def)
  from load_makes_intact [OF wf _ ps load] a have ci: "config_intact (length h) h1 cfg"
    and pr: "list_all (pass_ready (length h) h1) ps" by auto
  have "list_all (pass_live h1) ps" using ps live load by (rule load_keeps_live)
  with loaded_reaches_done [of ?s1] ci pr obtain t
    where "build_step\<^sup>*\<^sup>* ?s1 t" and "phase t = Done" by (auto simp: build_init_def)
  with step show ?thesis by (meson converse_rtranclp_into_rtranclp)
qed

text \<open>C18. Liveness: from a well-formed start whose module is an object, a build whose
  passes all have a truthy bundler configuration, with an object in \<open>resolve\<close> on
  each client pass, reaches the state \<open>Done\<close>.\<close>

theorem build_reaches_done:
  assumes "init_ok h (JRef a) ps" and "list_all (pass_live h) ps"
  shows "\<exists>s. build_step\<^sup>*\<^sup>* (build_init h (JRef a) ps) s \<and> phase s = Done"
  using assms by (rule build_reaches_done_from_init)

lemma build_reaches_done_witness:
  "\<exists>s. build_step\<^sup>*\<^sup>* (build_init lifecycle_heap (JRef 1) lifecycle_passes) s \<and> phase s = Done"
  using build_reaches_done [OF lifecycle_heap_init lifecycle_heap_live] .

text \<open>C5. When a build whose passes can run ends in \<open>Done\<close>, every client pass's bundler
  configuration has the fallback table \<open>{fs: false, path: false}\<close>, whatever later
  passes did. A later client pass whose configuration shares the \<open>resolve\<close> object
  replaces the table by an equal one.\<close>

theorem build_done_client_tables:
  assumes "init_ok h m ps" and "list_all (pass_live h) ps"
    and "build_step\<^sup>*\<^sup>* (build_init h m ps) s" and "phase s = Done"
  shows "\<forall>p \<in> set ps. \<not> snd p \<longrightarrow>
           fallback_map (bheap s) (fst p) = map_of [(''fs'', JBool False), (''path'', JBool False)]"
proof -
  from build_reach_tables [OF assms(1-3)] assms(4)
  have cd: "\<forall>p \<in> set ps. snd p \<or> client_done (length h) (bheap s) (fst p)"
    by (auto simp: list_all_iff)
  show ?thesis
  proof (intro ballI impI)
    fix p assume "p \<in> set ps" and "\<not> snd p"
    with cd have "client_done (length h) (bheap s) (fst p)" by blast
    then show "fallback_map (bheap s) (fst p) = map_of [(''fs'', JBool False), (''path'', JBool False)]"
      by (rule client_done_table)
  qed
qed

lemma build_done_client_tables_witness:
  "\<exists>s. build_step\<^sup>*\<^sup>* (build_init lifecycle_heap (JRef 1) lifecycle_passes) s \<and> phase s = Done \<and>
     fallback_map (bheap s) (JRef 4) = map_of [(''fs'', JBool False), (''path'', JBool False)]"
proof -
  from build_reaches_done_from_init [OF lifecycle_heap_init lifecycle_heap_live] obtain s
    where run: "build_step\<^sup>*\<^sup>* (build_init lifecycle_heap (JRef 1) lifecycle_passes) s"
      and fin: "phase s = Done" by blast
  from build_done_client_tables [OF lifecycle_heap_init lifecycle_heap_live run fin]
  have "fallback_map (bheap s) (JRef 4) = map_of [(''fs'', JBool False), (''path'', JBool False)]"
    by (simp add: lifecycle_passes_def)
  with run fin show ?thesis by blast
qed

text \<open>A run to \<open>Done\<close> from a loaded state goes through the successful pass, and ends
  with the finishing step.\<close>

end
