(* ===== verification/ConfigType.thy ===== *)
theory ConfigType
  imports NextConfig
begin

text \<open>
  Line 1 of \<open>src/next.config.js\<close> declares the configuration's type in a JSDoc comment:
  \<open>/** @type {import('next').NextConfig} */\<close>. The type itself is declared by the
  \<open>next\<close> package, not by this repository. It is modelled here as far as the module uses
  it: a fragment of \<open>NextConfig\<close> that lists the properties the literal sets, all of
  them optional, as the package declares them. Those properties are
  \<open>experimental.appDir\<close>, \<open>experimental.swcPlugins\<close>, \<open>images.domains\<close> and
  \<open>webpack\<close>.

  \<open>ts_type\<close> is the part of TypeScript's type language that this fragment needs.
  \<open>conforms\<close> is structural conformance of a read tree to a type:
  \<^item> every property of an object must be declared by the object type, as for a fresh object
    literal, and its value must conform to the declared type;
  \<^item> a declared property may be absent;
  \<^item> arrays and tuples are read the way \<open>tree_elems\<close> iterates them.
  The fragment drops no property that the literal sets, so a literal that conforms to it
  also conforms to the package's full type.
\<close>

datatype ts_type =
    TyBoolean | TyString | TyUnknown | TyFunction
  | TyNullable ts_type
  | TyArray ts_type
  | TyTuple "ts_type list"
  | TyRecord ts_type
  | TyObject "(key \<times> ts_type) list"

fun conforms :: "ts_type \<Rightarrow> jtree \<Rightarrow> bool" where
  "conforms TyBoolean t = (case t of TVal (JBool _) \<Rightarrow> True | _ \<Rightarrow> False)"
| "conforms TyString t = (case t of TVal (JStr _) \<Rightarrow> True | _ \<Rightarrow> False)"
| "conforms TyUnknown t = True"
| "conforms TyFunction t = (case t of TObj (Closure _) _ \<Rightarrow> True | _ \<Rightarrow> False)"
| "conforms (TyNullable ty) t = (t = TVal JNull \<or> conforms ty t)"
| "conforms (TyArray ty) t =
     (case tree_elems t of Some xs \<Rightarrow> list_all (conforms ty) xs | None \<Rightarrow> False)"
| "conforms (TyTuple tys) t =
     (case tree_elems t of Some xs \<Rightarrow> list_all2 conforms tys xs | None \<Rightarrow> False)"
| "conforms (TyRecord ty) t =
     (case t of TObj Ordinary ps \<Rightarrow> list_all (\<lambda>p. conforms ty (snd p)) ps | _ \<Rightarrow> False)"
| "conforms (TyObject fs) t =
     (case t of
        TObj Ordinary ps \<Rightarrow>
          list_all (\<lambda>(k, ty). case map_of ps k of Some x \<Rightarrow> conforms ty x | None \<Rightarrow> True) fs \<and>
          list_all (\<lambda>p. fst p \<in> set (map fst fs)) ps
      | _ \<Rightarrow> False)"

text \<open>
  The fragment of \<open>NextConfig\<close>. In the package:
  \<^item> \<open>experimental\<close> is an \<open>ExperimentalConfig\<close> object;
  \<^item> \<open>swcPlugins\<close> is an array of \<open>[string, Record<string, unknown>]\<close> pairs;
  \<^item> \<open>images.domains\<close> is a \<open>string[]\<close>;
  \<^item> \<open>webpack\<close> is a function or \<open>null\<close>.
\<close>

definition next_config_type :: ts_type where
  "next_config_type =
     TyObject
      [(''experimental'',
          TyObject [(''appDir'', TyBoolean),
                    (''swcPlugins'', TyArray (TyTuple [TyString, TyRecord TyUnknown]))]),
       (''images'', TyObject [(''domains'', TyArray TyString)]),
       (''webpack'', TyNullable TyFunction)]"

section \<open>The literal has its declared type\<close>

lemma nextConfig_conforms: "conforms next_config_type (lit_tree nextConfig)"
  by code_simp

text \<open>C10. The type annotation of line 1 holds of the exported value. Read with enough
  fuel to see all of it, the object in \<open>module.exports\<close> conforms to the
  \<open>NextConfig\<close> type.\<close>

theorem load_next_config_typed:
  assumes "wf_heap h" and "val_ok h m" and "load_next_config h m = Inr (v, h')" and "5 \<le> n"
  shows "conforms next_config_type (deep_read n h' v)"
  using exported_config_full [OF assms] nextConfig_conforms by simp

lemma load_next_config_typed_witness:
  "\<exists>v h'. load_next_config node_module_heap (JRef 1) = Inr (v, h') \<and>
     conforms next_config_type (deep_read 5 h' v)"
proof -
  obtain v h' where load: "load_next_config node_module_heap (JRef 1) = Inr (v, h')"
    using node_module_load by blast
  from load_next_config_typed [OF node_module_heap_wf node_module_ok load order_refl] load
  show ?thesis by blast
qed

end
