(* ===== verification/HookReference.thy ===== *)
theory HookReference
  imports WebpackHook
begin

text \<open>
  Section 9 of the specification proposes to replace the in-place mutation of line 17 by a
  copy-on-write update: a function that receives the bundler configuration and returns a
  new value with the fallback field overridden, leaving the old value untouched. In
  JavaScript that is the expression
  \<open>{...config, resolve: {...config.resolve, fallback: {fs: false, path: false}}}\<close>.
  \<open>webpack_copy\<close> models it, with the same guard and the same table as the code, so the
  comparison isolates in-place versus copy. The replacement of the table rather than a
  merge into it is the subject of \<open>webpack_refines_adjust_resolution\<close>.

  \<open>spread_props\<close> is what \<open>{...v}\<close> copies:
  \<^item> the own properties of an object, without an array's non-enumerable \<open>length\<close>;
  \<^item> the characters of a string, under their indices;
  \<^item> nothing for other primitives, \<open>undefined\<close> and \<open>null\<close>.

  The copy is allocated children first, as \<open>eval_lit\<close> does. The table comes first,
  then the new \<open>resolve\<close>, then the new configuration.

  The in-place hook and the copy are observationally equivalent up to a condition
  (\<open>unaliased\<close>, the condition of an equivalence up to a state predicate): no object
  refers to \<open>config\<close>, and only \<open>config.resolve\<close> refers to the resolve object. Under it
  the two results read alike, and so does every other old value. Without it they can
  differ: the in-place write is seen through every other reference to
  \<open>config.resolve\<close> (\<open>webpack_mutates_shared_resolve\<close>), the copy's is not.
\<close>

definition spread_props :: "heap \<Rightarrow> js_val \<Rightarrow> (key \<times> js_val) list" where
  "spread_props h v =
     (case v of
        JRef a \<Rightarrow>
          (if a < length h then
             (if kind (h ! a) = ArrayObj then filter (\<lambda>p. fst p \<noteq> ''length'') (props (h ! a))
              else props (h ! a))
           else [])
      | JStr s \<Rightarrow> zip (index_keys (length s)) (map (\<lambda>ch. JStr [ch]) s)
      | _ \<Rightarrow> [])"

definition webpack_copy :: "heap \<Rightarrow> js_val \<Rightarrow> js_val \<Rightarrow> js_error + (js_val \<times> heap)" where
  "webpack_copy h config opts =
     (case destructure_prop h opts ''isServer'' of
        Inl e \<Rightarrow> Inl e
      | Inr isServer \<Rightarrow>
          (if \<not> truthy isServer then
             (case get_prop h config ''resolve'' of
                Inl e \<Rightarrow> Inl e
              | Inr r \<Rightarrow>
                  (let (fb, h1) = eval_lit fallback_lit h;
                       (r', h2) = alloc \<lparr>kind = Ordinary,
                                        props = AList.update ''fallback'' fb (spread_props h1 r)\<rparr> h1;
                       (c', h3) = alloc \<lparr>kind = Ordinary,
                                        props = AList.update ''resolve'' (JRef r') (spread_props h2 config)\<rparr> h2
                   in Inr (JRef c', h3)))
           else Inr (config, h)))"

text \<open>No object refers to \<open>c\<close>, and the only reference to \<open>r\<close> is one property of
  \<open>c\<close>.\<close>

definition unaliased :: "heap \<Rightarrow> addr \<Rightarrow> addr \<Rightarrow> bool" where
  "unaliased h c r =
     (list_all (\<lambda>a. list_all (\<lambda>p. snd p \<noteq> JRef c) (props (h ! a))) [0..<length h] \<and>
      list_all (\<lambda>a. a = c \<or> list_all (\<lambda>p. snd p \<noteq> JRef r) (props (h ! a))) [0..<length h] \<and>
      length (filter (\<lambda>p. snd p = JRef r) (props (h ! c))) = 1)"

text \<open>A configuration without aliases: \<open>config\<close> at 2 is the only object that
  refers to its \<open>resolve\<close> at 1, whose table is at 0, and nothing refers to
  \<open>config\<close>. Options at 3 say \<open>isServer: false\<close>.\<close>

definition plain_heap :: heap where
  "plain_heap =
     [\<lparr>kind = Ordinary, props = [(''fs'', JBool True)]\<rparr>,
      \<lparr>kind = Ordinary, props = [(''fallback'', JRef 0)]\<rparr>,
      \<lparr>kind = Ordinary, props = [(''resolve'', JRef 1)]\<rparr>,
      \<lparr>kind = Ordinary, props = [(''isServer'', JBool False)]\<rparr>]"

section \<open>The copy on a client build\<close>

lemma spread_props_append [simp]:
  "val_ok h v \<Longrightarrow> spread_props (h @ xs) v = spread_props h v"
  by (cases v) (simp_all add: spread_props_def nth_append)

lemma spread_props_ordinary:
  "a < length h \<Longrightarrow> kind (h ! a) = Ordinary \<Longrightarrow> spread_props h (JRef a) = props (h ! a)"
  by (simp add: spread_props_def)

lemma webpack_copy_client:
  assumes s: "destructure_prop h opts ''isServer'' = Inr s" and ns: "\<not> truthy s"
    and r: "get_prop h config ''resolve'' = Inr rv" and c: "val_ok h config" and rv: "val_ok h rv"
  shows "webpack_copy h config opts =
    Inr (JRef (Suc (Suc (length h))),
         h @ [fallback_obj,
              \<lparr>kind = Ordinary, props = AList.update ''fallback'' (JRef (length h)) (spread_props h rv)\<rparr>,
              \<lparr>kind = Ordinary, props = AList.update ''resolve'' (JRef (Suc (length h))) (spread_props h config)\<rparr>])"
proof -
  have "spread_props (h @ [fallback_obj]) rv = spread_props h rv" using rv by simp
  moreover have "spread_props ((h @ [fallback_obj]) @
      [\<lparr>kind = Ordinary, props = AList.update ''fallback'' (JRef (length h)) (spread_props h rv)\<rparr>]) config =
      spread_props h config"
    using c by (simp only: append_assoc spread_props_append)
  ultimately show ?thesis using s ns r
    by (simp add: webpack_copy_def fallback_lit_def fallback_obj_def obj_of_fields_def)
qed

text \<open>The copy leaves every old value as it was: the specification's "no hidden side
  effects".\<close>

lemma webpack_copy_pure:
  assumes wf: "wf_heap h" and ok: "webpack_copy h config opts = Inr (v, h')" and x: "val_ok h x"
  shows "deep_read n h' x = deep_read n h x"
proof -
  from ok have "\<exists>xs. h' = h @ xs"
    by (auto simp: webpack_copy_def fallback_lit_def obj_of_fields_def
        split: sum.splits if_splits prod.splits)
  then show ?thesis using wf x deep_read_append by blast
qed

section \<open>In place versus copy\<close>

lemma unaliasedD:
  assumes "unaliased h c r"
  shows "\<And>a p. a < length h \<Longrightarrow> p \<in> set (props (h ! a)) \<Longrightarrow> snd p \<noteq> JRef c"
    and "\<And>a p. a < length h \<Longrightarrow> a \<noteq> c \<Longrightarrow> p \<in> set (props (h ! a)) \<Longrightarrow> snd p \<noteq> JRef r"
    and "length (filter (\<lambda>p. snd p = JRef r) (props (h ! c))) = 1"
  using assms by (auto simp: unaliased_def list_all_iff)

text \<open>The simulation: old objects other than \<open>config\<close> and its \<open>resolve\<close> to themselves,
  those two to their copies, and the new table to the new table.\<close>

lemma webpack_copy_sim:
  assumes wf: "wf_heap h" and cl: "c < length h"
    and r: "get_prop h (JRef c) ''resolve'' = Inr (JRef r)"
    and kc: "kind (h ! c) = Ordinary" and kr: "kind (h ! r) = Ordinary" and un: "unaliased h c r"
    and h1: "h1 = (h @ [fallback_obj])[r := (h ! r)\<lparr>props := AList.update ''fallback'' (JRef (length h)) (props (h ! r))\<rparr>]"
    and h2: "h2 = h @ [fallback_obj,
              \<lparr>kind = Ordinary, props = AList.update ''fallback'' (JRef (length h)) (props (h ! r))\<rparr>,
              \<lparr>kind = Ordinary, props = AList.update ''resolve'' (JRef (Suc (length h))) (props (h ! c))\<rparr>]"
    and R: "R = {(a, a) | a. a < length h \<and> a \<noteq> c \<and> a \<noteq> r} \<union>
              {(c, Suc (Suc (length h))), (r, Suc (length h)), (length h, length h)}"
  shows "heap_sim R h1 h2"
proof (rule heap_simI)
  let ?L = "length h"
  let ?Q = "\<lambda>p q. fst p = fst q \<and> val_rel R (snd p) (snd q)"
  note u = unaliasedD [OF un]
  from r cl have mc: "map_of (props (h ! c)) ''resolve'' = Some (JRef r)"
    by (auto split: option.splits)
  then have rc: "(''resolve'', JRef r) \<in> set (props (h ! c))" by (rule map_of_SomeD)
  from get_prop_val_ok [OF wf _ r] cl have rl: "r < ?L" by simp
  from u(1) [OF cl rc] have cr: "c \<noteq> r" by auto
  have self: "val_rel R v v" if "val_ok h v" "v \<noteq> JRef c" "v \<noteq> JRef r" for v
    using that R by (cases v) (auto simp: val_rel_def)
  have old: "?Q p p" if "a < ?L" "a \<noteq> c" "p \<in> set (props (h ! a))" for a p
    using self wf_heapD [OF wf that(1,3)] u(1) [OF that(1,3)] u(2) [OF that] by simp
  fix a b assume ab: "(a, b) \<in> R"
  show "a < length h1 \<and> b < length h2 \<and> kind (h1 ! a) = kind (h2 ! b) \<and>
      list_all2 ?Q (props (h1 ! a)) (props (h2 ! b))"
  proof -
    consider (same) "b = a" "a < ?L" "a \<noteq> c" "a \<noteq> r" | (conf) "a = c" "b = Suc (Suc ?L)"
      | (res) "a = r" "b = Suc ?L" | (tab) "a = ?L" "b = ?L"
      using ab R by auto
    then show ?thesis
    proof cases
      case same
      then have "h1 ! a = h ! a" "h2 ! a = h ! a" using h1 h2 by (simp_all add: nth_append)
      with same h1 h2 old show ?thesis by (simp add: list_all2_same)
    next
      case conf
      have "list_all2 ?Q (props (h ! c)) (AList.update ''resolve'' (JRef (Suc ?L)) (props (h ! c)))"
      proof (rule list_all2_update_unique [OF mc u(3)])
        show "\<forall>p \<in> set (props (h ! c)). snd p \<noteq> JRef r \<longrightarrow> ?Q p p"
          using self wf_heapD [OF wf cl] u(1) [OF cl] by simp
        show "?Q (''resolve'', JRef r) (''resolve'', JRef (Suc ?L))" using R by (simp add: val_rel_def)
      qed
      moreover have "h1 ! c = h ! c" using h1 cl cr by (simp add: nth_append)
      ultimately show ?thesis using conf h1 h2 cl kc by (simp add: nth_append)
    next
      case res
      let ?U = "AList.update ''fallback'' (JRef ?L) (props (h ! r))"
      have "\<forall>p \<in> set ?U. val_rel R (snd p) (snd p)"
        using alist_update_values_all [of "\<lambda>v. val_rel R v v" "JRef ?L" "props (h ! r)" "''fallback''"]
          old [OF rl cr [symmetric]] R by (auto simp: val_rel_def)
      then have "list_all2 ?Q ?U ?U" by (auto simp: list_all2_same)
      with res h1 h2 rl kr show ?thesis by (simp add: nth_append)
    next
      case tab
      with h1 h2 rl show ?thesis
        by (simp add: nth_append fallback_obj_def val_rel_def list_all2_same)
    qed
  qed
qed

text \<open>C7. Equivalence with the copy-on-write reference of section 9, up to a condition.
  Take a client build where \<open>config\<close> and \<open>config.resolve\<close> are ordinary objects,
  nothing refers to \<open>config\<close>, and only \<open>config.resolve\<close> refers to the resolve
  object. Then the in-place hook and the copy both succeed. The configuration the hook
  returns reads as the copy, and every other old value reads the same after either.\<close>

theorem webpack_copy_equiv:
  assumes wf: "wf_heap h" and cl: "c < length h"
    and s: "destructure_prop h opts ''isServer'' = Inr s" and ns: "\<not> truthy s"
    and r: "get_prop h (JRef c) ''resolve'' = Inr (JRef r)"
    and kc: "kind (h ! c) = Ordinary" and kr: "kind (h ! r) = Ordinary" and un: "unaliased h c r"
  shows "\<exists>h1 v2 h2. webpack h (JRef c) opts = Inr (JRef c, h1) \<and>
           webpack_copy h (JRef c) opts = Inr (v2, h2) \<and>
           deep_read n h1 (JRef c) = deep_read n h2 v2 \<and>
           (\<forall>x. val_ok h x \<and> x \<noteq> JRef c \<and> x \<noteq> JRef r \<longrightarrow> deep_read n h1 x = deep_read n h2 x)"
proof -
  let ?L = "length h"
  let ?h1 = "(h @ [fallback_obj])[r := (h ! r)\<lparr>props := AList.update ''fallback'' (JRef ?L) (props (h ! r))\<rparr>]"
  let ?h2 = "h @ [fallback_obj,
              \<lparr>kind = Ordinary, props = AList.update ''fallback'' (JRef ?L) (props (h ! r))\<rparr>,
              \<lparr>kind = Ordinary, props = AList.update ''resolve'' (JRef (Suc ?L)) (props (h ! c))\<rparr>]"
  let ?R = "{(a, a) | a. a < ?L \<and> a \<noteq> c \<and> a \<noteq> r} \<union>
              {(c, Suc (Suc ?L)), (r, Suc ?L), (?L, ?L)}"
  from get_prop_val_ok [OF wf _ r] cl have rl: "r < ?L" by simp
  have ok1: "webpack h (JRef c) opts = Inr (JRef c, ?h1)" by (rule webpack_client [OF s ns r rl])
  have "webpack_copy h (JRef c) opts = Inr (JRef (Suc (Suc ?L)), ?h2)"
    using webpack_copy_client [OF s ns r] cl rl
    by (simp add: spread_props_ordinary kc kr)
  moreover have sim: "heap_sim ?R ?h1 ?h2"
    using wf cl r kc kr un refl refl refl by (rule webpack_copy_sim)
  moreover have "deep_read n ?h1 x = deep_read n ?h2 x"
    if "val_ok h x" "x \<noteq> JRef c" "x \<noteq> JRef r" for x
    using that by (intro deep_read_sim [OF sim]) (cases x; auto simp: val_rel_def)
  moreover have "deep_read n ?h1 (JRef c) = deep_read n ?h2 (JRef (Suc (Suc ?L)))"
    by (rule deep_read_sim [OF sim]) (simp add: val_rel_def)
  ultimately show ?thesis using ok1 by blast
qed

lemma plain_heap_facts:
  "wf_heap plain_heap" "destructure_prop plain_heap (JRef 3) ''isServer'' = Inr (JBool False)"
  "get_prop plain_heap (JRef 2) ''resolve'' = Inr (JRef 1)"
  "kind (plain_heap ! 2) = Ordinary" "kind (plain_heap ! 1) = Ordinary" "unaliased plain_heap 2 1"
  by (simp_all add: plain_heap_def wf_heap_def obj_ok_def destructure_prop_def unaliased_def upt_rec)

lemma webpack_copy_equiv_witness:
  "\<exists>h1 v2 h2. webpack plain_heap (JRef 2) (JRef 3) = Inr (JRef 2, h1) \<and>
     webpack_copy plain_heap (JRef 2) (JRef 3) = Inr (v2, h2) \<and>
     deep_read 4 h1 (JRef 2) = deep_read 4 h2 v2"
  using webpack_copy_equiv [OF plain_heap_facts(1) _ plain_heap_facts(2) _ plain_heap_facts(3-6), of 4]
  by (auto simp: plain_heap_def)

end
