(* ===== verification/Spec2Isabelle.thy ===== *)
theory Spec2Isabelle
  imports BuildLifecycle ConfigType HookReference
begin

text \<open>
  \<^bold>\<open>The program.\<close> The repository's only code under \<open>src/\<close> is
  \<open>src/next.config.js\<close>, the configuration module of a Next.js chat application. It
  builds one object literal \<open>nextConfig\<close> (lines 2--21) and exports it with
  \<open>module.exports = nextConfig\<close> (line 23). Line 1 declares its type,
  \<open>NextConfig\<close> of the \<open>next\<close> package, in a JSDoc comment. The literal holds three
  parts:
  \<^item> \<open>experimental\<close>: \<open>appDir: true\<close> and one SWC plugin entry
    \<open>["next-superjson-plugin", {}]\<close> (lines 3--6);
  \<^item> \<open>images.domains\<close>: the allow-list of three remote image hosts (lines 7--13);
  \<^item> \<open>webpack\<close>: an arrow function \<open>(config, {isServer}) => ...\<close> (lines 14--20).
    On a client pass (\<open>isServer\<close> falsy) it assigns a fresh object
    \<open>{fs: false, path: false}\<close> to \<open>config.resolve.fallback\<close>. It returns \<open>config\<close>
    on every pass.

  The build tool (Next.js) loads the module, reads the object and calls the hook once per
  bundling pass. The host is not code of this repository, so it is modelled from the
  specification (section 6), and only where it meets the module.

  \<^bold>\<open>Theories and what they model.\<close>
  \<^item> \<open>JsPrelude\<close>: names (\<open>addr\<close>, \<open>key\<close>), the collections \<open>heap_simps\<close> and
    \<open>wf_intros\<close>, and generic lemmas on association lists (\<open>AList.update\<close>) and lists.
  \<^item> \<open>JsHeap\<close>: the part of JavaScript the module uses.
    \<^item> Values \<open>js_val\<close>; a heap \<open>heap\<close> is an append-only list of objects \<open>js_obj\<close>,
      each with a tag (ordinary, array, closure) and own properties in insertion order.
    \<^item> The operations the module performs:
      \<^item> \<open>get_prop\<close>, member read (line 17, \<open>config.resolve\<close>);
      \<^item> \<open>set_prop\<close>, member assignment (line 17, \<open>.fallback = ...\<close>; sloppy mode, so a
        write on a primitive is a no-op);
      \<^item> \<open>destructure_prop\<close>, the parameter pattern \<open>{isServer}\<close> (line 14);
      \<^item> \<open>truthy\<close>, \<open>ToBoolean\<close> (line 16).
    \<^item> Every TypeError is a value \<open>Inl\<close> of \<open>js_error\<close>.
    \<^item> \<open>wf_heap\<close> says that every reference in the heap is in bounds.
    \<^item> \<open>deep_read\<close> is the observation: the tree of values reachable from a value, to a
      given depth.
    \<^item> \<open>heap_sim\<close> is a simulation between heaps under which deep reads agree.
  \<^item> \<open>JsLiteral\<close>: literals \<open>lit\<close> and their evaluation \<open>eval_lit\<close>, with one fresh
    object per object, array and function literal (\<open>obj_of_fields\<close> and
    \<open>array_props\<close> give the own properties). \<open>lit_tree\<close> is what a deep read of
    the result must show.
  \<^item> \<open>NextConfig\<close>:
    \<^item> \<open>nextConfig\<close> is the literal of lines 2--21.
    \<^item> \<open>load_next_config\<close> evaluates it and assigns it to \<open>module.exports\<close> (lines 1--23).
    \<^item> \<open>config_view\<close> is the host's typed reading of the exported object into the record
      \<open>build_config\<close> of the specification's configuration contract.
  \<^item> \<open>WebpackHook\<close>:
    \<^item> \<open>webpack\<close> is the hook body, lines 14--20, statement by statement.
    \<^item> \<open>fallback_lit\<close> is the literal of line 17.
    \<^item> \<open>call_closure\<close> dispatches a closure value to its body.
    \<^item> \<open>adjust_resolution\<close> is the abstract contract of the hook: a function on fallback
      tables.
  \<^item> \<open>ConfigType\<close>: the type of line 1.
    \<^item> \<open>next_config_type\<close> is the fragment of \<open>NextConfig\<close> that the literal uses,
      written from the \<open>next\<close> package's declaration (line 1 only names it).
    \<^item> \<open>conforms\<close> is TypeScript's structural check of a read tree against a type.
  \<^item> \<open>HookReference\<close> (from the specification): \<open>webpack_copy\<close> is the copy-on-write hook
    that section 9 proposes in place of line 17, built with object spread
    (\<open>spread_props\<close>). It is compared with the code under the condition
    \<open>unaliased\<close>.
  \<^item> \<open>NextHost\<close> (from the specification):
    \<^item> \<open>run_webpack_pass\<close> is one bundling pass: when \<open>webpack\<close> is a function it is
      called with the pass's bundler configuration and a fresh options object, and a falsy
      result fails the pass; any other \<open>webpack\<close> entry is skipped;
    \<^item> \<open>next_build\<close> is a server pass then a client pass.
  \<^item> \<open>BuildLifecycle\<close> (from the specification): a whole build as an inductive step
    relation \<open>build_step\<close> on a \<open>build_state\<close> record. The steps are: load the module
    once, run the pending passes one by one, then \<open>Done\<close>, or \<open>Failed\<close> on any error.
    The bundler configurations are objects of the start heap; the host allocates them after
    the load, which no read can tell apart.
  \<^item> This theory: properties that span the module and the host.

  \<^bold>\<open>What is proved.\<close>
  \<^item> Loading (\<open>NextConfig\<close>):
    \<^item> loading always succeeds on a well-formed heap with an object for \<open>module\<close>, and
      the value is found under \<open>module.exports\<close>;
    \<^item> the exported value reads back as exactly the literal of the source, cut at the fuel
      of the read;
    \<^item> its typed view is the configuration record \<open>build_configuration\<close>
      (a functional refinement): the app directory flag, the one plugin with its empty
      options, the three image hosts in order, the hook;
    \<^item> the exported value conforms to the declared type \<open>NextConfig\<close>
      (\<open>ConfigType\<close>).
  \<^item> The hook (\<open>WebpackHook\<close>):
    \<^item> on a client pass the fallback table becomes exactly \<open>{fs: false, path: false}\<close>;
    \<^item> it refines \<open>adjust_resolution\<close> exactly when the prior table has no keys besides
      \<open>fs\<close> and \<open>path\<close>, since the code replaces the table instead of merging into it;
    \<^item> frame: it changes no property of an older object but \<open>fallback\<close> of
      \<open>config.resolve\<close>, and on a server pass nothing;
    \<^item> every TypeError path is named: nullish options, nullish \<open>config\<close>, nullish
      \<open>config.resolve\<close>, and the last one does occur;
    \<^item> well-formedness is preserved and \<open>config\<close> is returned;
    \<^item> only the truthiness of \<open>isServer\<close> matters;
    \<^item> the mutation is in place, so it is seen through every alias of \<open>config.resolve\<close>;
    \<^item> a second client call reads the same as one call (up to the fresh, unreachable
      object the second call allocates);
    \<^item> it is equivalent to section 9's copy-on-write reference when \<open>config\<close> and
      \<open>config.resolve\<close> are unaliased, by a heap simulation that maps the two objects to
      their copies.
  \<^item> The build lifecycle (\<open>BuildLifecycle\<close>):
    \<^item> a build whose passes can run reaches \<open>Done\<close>;
    \<^item> at \<open>Done\<close> every client pass's bundler configuration has the table
      \<open>{fs: false, path: false}\<close>, whatever later passes did. The proof is by rule
      induction over two invariants: the configuration's objects form a closed region
      above every bundler object that the passes leave intact, and each client pass
      already run keeps its table.
  \<^item> Across components (this theory):
    \<^item> a client pass over the loaded module ends with the fallback table set;
    \<^item> a server pass leaves the configuration as it was;
    \<^item> a whole build (\<open>next_build\<close>) succeeds and sets the client's table. Through
      the shared \<open>resolve\<close> object, it also sets the table of any server
      configuration that shares that object.
    The pass lemmas \<open>loaded_server_pass\<close> and \<open>loaded_client_pass\<close> hold after any
    allocation that followed the load, so they compose into the two-pass build.

  \<^bold>\<open>Fuel and depth.\<close> \<open>deep_read\<close> takes its depth as fuel. Heaps can be cyclic, so
  no depth bound is total. The read-back lemma is stated for every fuel \<open>n\<close>: the read is
  \<open>cut_tree n (lit_tree l)\<close>, the literal's tree cut at depth \<open>n\<close>, and it equals
  \<open>lit_tree l\<close> once \<open>n\<close> reaches \<open>lit_depth l\<close>. The source literal has depth 5
  (\<open>nextConfig_depth\<close>), so the host's view reads with fuel 5, which sees all of it. No
  operation of the module loops, so no other fuel is needed, and the build lifecycle
  needs none: liveness is proved by exhibiting the run.

  \<^bold>\<open>Allocation order.\<close> \<open>eval_lit\<close> allocates the children of a literal before the
  literal's own object. ECMAScript allocates the holder first. Addresses are not
  observable, and all results are stated through \<open>deep_read\<close> and \<open>get_prop\<close>, so they
  do not depend on this choice.

  \<^bold>\<open>Not modelled.\<close>
  \<^item> Prototype chains and inherited properties: the module reads only own properties of
    objects it or the host creates.
  \<^item> Array \<open>length\<close> exotics: arrays are created once and never written.
  \<^item> Numbers other than integers: the module has none.
  \<^item> The host's internals beyond the calls made to the module: config file discovery,
    module resolution, the bundler, SWC and the \<open>next-superjson-plugin\<close>. The
    specification excludes them (section 1: "image optimization pipelines,
    compiler/plugin internals, module bundling algorithms") and no code of them is in the
    repository. The module only names the plugin and passes it an empty options object,
    which the development carries through \<open>config_view\<close> as an opaque tree.
  \<^item> The image subsystem: the allow-list is data that the host compares with the host
    names of requested URLs. Its content is fixed by \<open>load_next_config_refines\<close>; the
    comparison and the URL parser are the host's code, which neither the repository nor
    the specification describes.
  \<^item> The chat application: it is not code under \<open>src/\<close>.
  Every statement of \<open>src/next.config.js\<close> is a definition of the development (lines
  1--23). The host is modelled wherever the specification says how it calls the module:
  loading, the bundling passes and the build lifecycle.
\<close>

section \<open>Properties across components\<close>

lemma fallback_map_append:
  assumes wf: "wf_heap h" and c: "val_ok h wcfg"
  shows "fallback_map (h @ xs) wcfg = fallback_map h wcfg"
proof (cases "get_prop h wcfg ''resolve''")
  case (Inr r)
  from get_prop_val_ok [OF wf c Inr] have r: "val_ok h r" .
  show ?thesis
  proof (cases "get_prop h r ''fallback''")
    case (Inr b)
    from get_prop_val_ok [OF wf r Inr] have "val_ok h b" .
    with Inr \<open>get_prop h wcfg ''resolve'' = Inr r\<close> c r show ?thesis
      by (cases b) (auto simp: fallback_map_def get_prop_append nth_append)
  qed (use Inr c r in \<open>simp add: fallback_map_def get_prop_append\<close>)
qed (use c in \<open>simp add: fallback_map_def get_prop_append\<close>)

lemma lifecycle_heap_facts:
  "wf_heap lifecycle_heap" "val_ok lifecycle_heap (JRef 1)" "val_ok lifecycle_heap (JRef 4)"
  "get_prop lifecycle_heap (JRef 4) ''resolve'' = Inr (JRef 3)"
  "val_ok lifecycle_heap (JRef 5)" "get_prop lifecycle_heap (JRef 5) ''resolve'' = Inr (JRef 3)"
  by (simp_all add: lifecycle_heap_def node_module_heap_def wf_heap_def obj_ok_def)

lemma lifecycle_heap_load:
  "\<exists>cfg h1. load_next_config lifecycle_heap (JRef 1) = Inr (cfg, h1) \<and>
     val_ok h1 (JRef 4) \<and> get_prop h1 (JRef 4) ''resolve'' = Inr (JRef 3)"
proof -
  obtain cfg h1 where load: "load_next_config lifecycle_heap (JRef 1) = Inr (cfg, h1)"
    using load_next_config_ok [OF lifecycle_heap_facts(1), of 1]
    by (auto simp: lifecycle_heap_def node_module_heap_def)
  have "val_ok h1 (JRef 4)"
    using lifecycle_heap_facts(3) load_next_config_len [OF load] by (rule val_ok_mono)
  moreover have "get_prop h1 (JRef 4) ''resolve'' = Inr (JRef 3)"
    using load_next_config_old_reads [OF lifecycle_heap_facts(3) _ load] lifecycle_heap_facts(4)
    by simp
  ultimately show ?thesis using load by blast
qed

text \<open>The two kinds of pass over the loaded module, after any allocation that followed
  the load.\<close>

lemma loaded_server_pass:
  assumes wf: "wf_heap h" and m: "val_ok h m"
    and load: "load_next_config h m = Inr (cfg, h1)" and t: "truthy wcfg"
  shows "run_webpack_pass (h1 @ xs) cfg wcfg True = Inr (wcfg, h1 @ xs @ [pass_opts True])"
proof -
  have "webpack ((h1 @ xs) @ [pass_opts True]) wcfg (JRef (length (h1 @ xs))) =
      Inr (wcfg, (h1 @ xs) @ [pass_opts True])"
    using pass_opts_isServer by (rule webpack_server) simp
  with run_webpack_pass_after_load [OF wf m load, of xs wcfg True] t show ?thesis by simp
qed

lemma loaded_client_pass:
  assumes wf: "wf_heap h" and m: "val_ok h m"
    and load: "load_next_config h m = Inr (cfg, h1)" and wfx: "wf_heap (h1 @ xs)"
    and wc: "val_ok (h1 @ xs) wcfg" and r: "get_prop (h1 @ xs) wcfg ''resolve'' = Inr (JRef r)"
  shows "\<exists>h2. run_webpack_pass (h1 @ xs) cfg wcfg False = Inr (wcfg, h2) \<and>
           (\<forall>x. val_ok (h1 @ xs) x \<and> get_prop (h1 @ xs) x ''resolve'' = Inr (JRef r) \<longrightarrow>
              fallback_map h2 x = map_of [(''fs'', JBool False), (''path'', JBool False)])"
proof -
  let ?g = "h1 @ xs"
  let ?h = "?g @ [pass_opts False]"
  have wfo: "wf_heap ?h" using wfx by (rule wf_heap_alloc) (simp add: obj_ok_def pass_opts_def)
  have wc': "val_ok ?h wcfg" using wc by (rule val_ok_append)
  have r': "get_prop ?h wcfg ''resolve'' = Inr (JRef r)" using r by (simp only: get_prop_append [OF wc])
  from webpack_client_fallback [OF wfo wc' pass_opts_isServer _ r']
  obtain h2 where hook: "webpack ?h wcfg (JRef (length ?g)) = Inr (wcfg, h2)" by auto
  have shared: "fallback_map h2 x = map_of [(''fs'', JBool False), (''path'', JBool False)]"
    if x: "val_ok ?g x" and rx: "get_prop ?g x ''resolve'' = Inr (JRef r)" for x
  proof -
    have "get_prop ?h x ''resolve'' = Inr (JRef r)" using rx by (simp only: get_prop_append [OF x])
    with webpack_client_fallback_shared [OF wfo wc' pass_opts_isServer _ r' hook val_ok_append [OF x]]
    show ?thesis by simp
  qed
  from get_prop_ref_base [OF r] have "truthy wcfg" by auto
  with run_webpack_pass_after_load [OF wf m load, of xs wcfg False] hook shared
  show ?thesis by auto
qed

text \<open>C3. A client bundling pass over the loaded module reaches the hook through
  \<open>nextConfig.webpack\<close> and leaves the pass's bundler configuration with the fallback
  table \<open>{fs: false, path: false}\<close> and nothing else.\<close>

theorem next_client_pass_fallbacks:
  assumes wf: "wf_heap h" and m: "val_ok h m"
    and load: "load_next_config h m = Inr (cfg, h1)"
    and wc: "val_ok h1 wcfg" and r: "get_prop h1 wcfg ''resolve'' = Inr (JRef r)"
  shows "\<exists>h2. run_webpack_pass h1 cfg wcfg False = Inr (wcfg, h2) \<and>
           fallback_map h2 wcfg = map_of [(''fs'', JBool False), (''path'', JBool False)]"
proof -
  from loaded_heap_wf [OF wf m load] have wf1: "wf_heap (h1 @ [])" by simp
  from wc have wc0: "val_ok (h1 @ []) wcfg" by simp
  from r have r0: "get_prop (h1 @ []) wcfg ''resolve'' = Inr (JRef r)" by simp
  from loaded_client_pass [OF wf m load wf1 wc0 r0] obtain h2
    where pass: "run_webpack_pass h1 cfg wcfg False = Inr (wcfg, h2)"
      and fb: "\<forall>x. val_ok h1 x \<and> get_prop h1 x ''resolve'' = Inr (JRef r) \<longrightarrow>
        fallback_map h2 x = map_of [(''fs'', JBool False), (''path'', JBool False)]" by auto
  from fb wc r have "fallback_map h2 wcfg = map_of [(''fs'', JBool False), (''path'', JBool False)]"
    by blast
  with pass show ?thesis by blast
qed

lemma next_client_pass_fallbacks_witness:
  "\<exists>cfg h1 h2. load_next_config lifecycle_heap (JRef 1) = Inr (cfg, h1) \<and>
     run_webpack_pass h1 cfg (JRef 4) False = Inr (JRef 4, h2) \<and>
     fallback_map h2 (JRef 4) = map_of [(''fs'', JBool False), (''path'', JBool False)]"
proof -
  obtain cfg h1 where load: "load_next_config lifecycle_heap (JRef 1) = Inr (cfg, h1)"
    and wc: "val_ok h1 (JRef 4)" and r: "get_prop h1 (JRef 4) ''resolve'' = Inr (JRef 3)"
    using lifecycle_heap_load by blast
  from next_client_pass_fallbacks [OF lifecycle_heap_facts(1,2) load wc r] load
  show ?thesis by blast
qed

text \<open>C17. A server bundling pass over the loaded module returns the pass's bundler
  configuration untouched: the heap only gains the options object of the call.\<close>

theorem next_server_pass_unchanged:
  assumes wf: "wf_heap h" and m: "val_ok h m"
    and load: "load_next_config h m = Inr (cfg, h1)"
    and wc: "val_ok h1 wcfg" and t: "truthy wcfg"
  shows "run_webpack_pass h1 cfg wcfg True = Inr (wcfg, h1 @ [pass_opts True]) \<and>
         fallback_map (h1 @ [pass_opts True]) wcfg = fallback_map h1 wcfg"
proof -
  from loaded_heap_wf [OF wf m load] have wf1: "wf_heap h1" by simp
  from loaded_server_pass [OF wf m load t, of "[]"] fallback_map_append [OF wf1 wc]
  show ?thesis by simp
qed

lemma next_server_pass_unchanged_witness:
  "\<exists>cfg h1. load_next_config lifecycle_heap (JRef 1) = Inr (cfg, h1) \<and>
     run_webpack_pass h1 cfg (JRef 4) True = Inr (JRef 4, h1 @ [pass_opts True]) \<and>
     fallback_map (h1 @ [pass_opts True]) (JRef 4) = fallback_map h1 (JRef 4)"
proof -
  obtain cfg h1 where load: "load_next_config lifecycle_heap (JRef 1) = Inr (cfg, h1)"
    and wc: "val_ok h1 (JRef 4)"
    using lifecycle_heap_load by blast
  from next_server_pass_unchanged [OF lifecycle_heap_facts(1,2) load wc] load
  show ?thesis by simp
qed

text \<open>C4. A whole build (a server pass, then a client pass) over the loaded module
  succeeds. Afterwards every configuration whose \<open>resolve\<close> is the client
  configuration's \<open>resolve\<close> object sees the table \<open>{fs: false, path: false}\<close>.
  This includes a server configuration that shares that object, because the hook mutates
  the object in place.\<close>

theorem next_build_client_fallbacks:
  assumes wf: "wf_heap h" and m: "val_ok h m"
    and load: "load_next_config h m = Inr (cfg, h1)"
    and st: "truthy scfg"
    and cc: "val_ok h1 ccfg" and r: "get_prop h1 ccfg ''resolve'' = Inr (JRef r)"
  shows "\<exists>h3. next_build h1 cfg scfg ccfg = Inr h3 \<and>
           (\<forall>x. val_ok h1 x \<and> get_prop h1 x ''resolve'' = Inr (JRef r) \<longrightarrow>
              fallback_map h3 x = map_of [(''fs'', JBool False), (''path'', JBool False)])"
proof -
  let ?g = "h1 @ [pass_opts True]"
  from loaded_server_pass [OF wf m load st, of "[]"]
  have server: "run_webpack_pass h1 cfg scfg True = Inr (scfg, ?g)" by simp
  from loaded_heap_wf [OF wf m load] have "wf_heap h1" by simp
  then have wfg: "wf_heap ?g" by (rule wf_heap_alloc) (simp add: obj_ok_def pass_opts_def)
  have cc': "val_ok ?g ccfg" using cc by (rule val_ok_append)
  have r': "get_prop ?g ccfg ''resolve'' = Inr (JRef r)" using r by (simp only: get_prop_append [OF cc])
  from loaded_client_pass [OF wf m load wfg cc' r'] obtain h3
    where client: "run_webpack_pass ?g cfg ccfg False = Inr (ccfg, h3)"
      and fb: "\<forall>x. val_ok ?g x \<and> get_prop ?g x ''resolve'' = Inr (JRef r) \<longrightarrow>
        fallback_map h3 x = map_of [(''fs'', JBool False), (''path'', JBool False)]" by blast
  have "fallback_map h3 x = map_of [(''fs'', JBool False), (''path'', JBool False)]"
    if x: "val_ok h1 x" and rx: "get_prop h1 x ''resolve'' = Inr (JRef r)" for x
  proof -
    have "get_prop ?g x ''resolve'' = Inr (JRef r)" using rx by (simp only: get_prop_append [OF x])
    with fb val_ok_append [OF x] show ?thesis by blast
  qed
  with server client show ?thesis by (simp add: next_build_def)
qed

lemma next_build_client_fallbacks_witness:
  "\<exists>cfg h1 h3. load_next_config lifecycle_heap (JRef 1) = Inr (cfg, h1) \<and>
     next_build h1 cfg (JRef 5) (JRef 4) = Inr h3 \<and>
     fallback_map h3 (JRef 4) = map_of [(''fs'', JBool False), (''path'', JBool False)] \<and>
     fallback_map h3 (JRef 5) = map_of [(''fs'', JBool False), (''path'', JBool False)]"
proof -
  obtain cfg h1 where load: "load_next_config lifecycle_heap (JRef 1) = Inr (cfg, h1)"
    using load_next_config_ok [OF lifecycle_heap_facts(1), of 1]
    by (auto simp: lifecycle_heap_def node_module_heap_def)
  have len: "length lifecycle_heap \<le> length h1" using load_next_config_len [OF load] .
  have c4: "val_ok h1 (JRef 4)" using lifecycle_heap_facts(3) len by (rule val_ok_mono)
  have c5: "val_ok h1 (JRef 5)" using lifecycle_heap_facts(5) len by (rule val_ok_mono)
  have r4: "get_prop h1 (JRef 4) ''resolve'' = Inr (JRef 3)"
    using load_next_config_old_reads [OF lifecycle_heap_facts(3) _ load] lifecycle_heap_facts(4)
    by simp
  have r5: "get_prop h1 (JRef 5) ''resolve'' = Inr (JRef 3)"
    using load_next_config_old_reads [OF lifecycle_heap_facts(5) _ load] lifecycle_heap_facts(6)
    by simp
  have t5: "truthy (JRef 5)" by simp
  from next_build_client_fallbacks [OF lifecycle_heap_facts(1,2) load t5 c4 r4] obtain h3
    where build: "next_build h1 cfg (JRef 5) (JRef 4) = Inr h3"
      and fb: "\<forall>x. val_ok h1 x \<and> get_prop h1 x ''resolve'' = Inr (JRef 3) \<longrightarrow>
        fallback_map h3 x = map_of [(''fs'', JBool False), (''path'', JBool False)]" by auto
  from fb c4 r4 c5 r5 build load show ?thesis by blast
qed

end
